theory Spec2Isabelle
  imports Main "HOL-Library.AList" "HOL-Library.Sublist"
begin

chapter \<open>Turborepo project discovery and grouping\<close>

text \<open>
  A model of the action's three modules: \<^verbatim>\<open>turbo.ts\<close> (tool version, cache warm-up, package
  listing), \<^verbatim>\<open>package.ts\<close> (reading one manifest) and \<^verbatim>\<open>main.ts\<close> (grouping and reporting).
  Files, subprocesses and the cache are parameters of a record \<open>world\<close>; a thrown error is
  a value; the log of warnings is returned next to each outcome.
\<close>

section \<open>Identifier normalisation (package.ts, getPackageInfo)\<close>

text \<open>
  A JavaScript string is modelled as a \<^typ>\<open>string\<close>. The two regular expressions of
  \<^verbatim>\<open>getPackageInfo\<close> carry no \<^verbatim>\<open>u\<close> or \<^verbatim>\<open>i\<close> flag, so \<^verbatim>\<open>\W\<close> is every code unit outside
  \<^verbatim>\<open>[A-Za-z0-9_]\<close>; every character beyond ASCII is such a non-word character, whatever
  its encoding.
\<close>

definition is_word :: "char \<Rightarrow> bool" where
  "is_word c =
     (let n = (of_char c :: nat)
      in (65 \<le> n \<and> n \<le> 90) \<or> (97 \<le> n \<and> n \<le> 122) \<or> (48 \<le> n \<and> n \<le> 57) \<or> n = 95)"

text \<open>\<^verbatim>\<open>s.replace(/\W+/g, '-')\<close>: scanning from the left, a word character is copied, and
  at a non-word character the greedy \<^verbatim>\<open>\W+\<close> takes the whole run, which becomes one dash.\<close>

function replace_nonword :: "string \<Rightarrow> string" where
  "replace_nonword [] = []"
| "replace_nonword (c # cs) =
     (if is_word c then c # replace_nonword cs
      else CHR ''-'' # replace_nonword (dropWhile (\<lambda>d. \<not> is_word d) cs))"
  by pat_completeness auto
termination
  by (relation "measure length") (auto simp: length_dropWhile_le less_Suc_eq_le)

text \<open>\<^verbatim>\<open>toLowerCase()\<close>. It is applied to the output of the first replacement, which holds
  only word characters and dashes (lemma \<open>replace_nonword_chars\<close> below); on those, lowering
  the case moves \<^verbatim>\<open>A-Z\<close> to \<^verbatim>\<open>a-z\<close> and leaves the rest.\<close>

definition lower_char :: "char \<Rightarrow> char" where
  "lower_char c =
     (let n = (of_char c :: nat) in if 65 \<le> n \<and> n \<le> 90 then char_of (n + 32) else c)"

definition toLowerCase :: "string \<Rightarrow> string" where
  "toLowerCase s = map lower_char s"

text \<open>\<^verbatim>\<open>s.replace(/^-+|-+$/g, '')\<close>: the run of dashes at the start and the run of dashes
  at the end are deleted.\<close>

definition strip_dashes :: "string \<Rightarrow> string" where
  "strip_dashes s =
     rev (dropWhile (\<lambda>c. c = CHR ''-'') (rev (dropWhile (\<lambda>c. c = CHR ''-'') s)))"

definition normalizeIdentifier :: "string \<Rightarrow> string" where
  "normalizeIdentifier packageName = strip_dashes (toLowerCase (replace_nonword packageName))"

subsection \<open>The normaliser as the specification words it\<close>

text \<open>
  The specification describes the identifier as: every maximal run of characters that are
  not letters, digits or underscore becomes a single \<^verbatim>\<open>-\<close>; the text is put in lower case;
  leading and trailing \<^verbatim>\<open>-\<close> are stripped. The definitions below follow these words, with
  the alphabets written out, a scanner that remembers whether it is inside a run, and the
  two strippings done one character at a time. They are compared below with the functions
  taken from the regular expressions.
\<close>

definition upper_letters :: string where
  "upper_letters = ''ABCDEFGHIJKLMNOPQRSTUVWXYZ''"

definition lower_letters :: string where
  "lower_letters = ''abcdefghijklmnopqrstuvwxyz''"

definition digits :: string where
  "digits = ''0123456789''"

definition spec_word_char :: "char \<Rightarrow> bool" where
  "spec_word_char c = (c \<in> set (upper_letters @ lower_letters @ digits @ ''_''))"

fun spec_collapse :: "bool \<Rightarrow> string \<Rightarrow> string" where
  "spec_collapse in_run [] = []"
| "spec_collapse in_run (c # cs) =
     (if spec_word_char c then c # spec_collapse False cs
      else if in_run then spec_collapse True cs
      else CHR ''-'' # spec_collapse True cs)"

definition spec_lower :: "string \<Rightarrow> string" where
  "spec_lower s =
     map (\<lambda>c. case map_of (zip upper_letters lower_letters) c of Some d \<Rightarrow> d | None \<Rightarrow> c) s"

fun spec_strip_leading :: "string \<Rightarrow> string" where
  "spec_strip_leading [] = []"
| "spec_strip_leading (c # cs) = (if c = CHR ''-'' then spec_strip_leading cs else c # cs)"

fun spec_strip_trailing :: "string \<Rightarrow> string" where
  "spec_strip_trailing [] = []"
| "spec_strip_trailing (c # cs) =
     (let r = spec_strip_trailing cs in if c = CHR ''-'' \<and> r = [] then [] else c # r)"

definition spec_normalize :: "string \<Rightarrow> string" where
  "spec_normalize s = spec_strip_trailing (spec_strip_leading (spec_lower (spec_collapse False s)))"

section \<open>Errors, warnings and the ambient world\<close>

text \<open>
  A thrown value is an \<open>error\<close>; a function that may throw returns \<open>error + 'a\<close> with
  \<open>Inl\<close> for the throw. \<open>message\<close> is the \<^verbatim>\<open>.message\<close> property and \<open>String_error\<close>
  is what a template literal \<^verbatim>\<open>${error}\<close> prints.
\<close>

datatype error = Error string | TypeError string | SyntaxError string

fun message :: "error \<Rightarrow> string" where
  "message (Error m) = m"
| "message (TypeError m) = m"
| "message (SyntaxError m) = m"

fun error_name :: "error \<Rightarrow> string" where
  "error_name (Error m) = ''Error''"
| "error_name (TypeError m) = ''TypeError''"
| "error_name (SyntaxError m) = ''SyntaxError''"

definition String_error :: "error \<Rightarrow> string" where
  "String_error e = (if message e = [] then error_name e else error_name e @ '': '' @ message e)"

text \<open>
  \<^verbatim>\<open>core.warning\<close> appends a line to the log. \<^verbatim>\<open>core.info\<close> only prints progress and has
  no bearing on any result; its calls are left out. An effectful function returns its
  outcome together with the warnings it logged.
\<close>

datatype log_line = Warning string

type_synonym 'a io = "(error + 'a) \<times> log_line list"

definition ret :: "'a \<Rightarrow> 'a io" where
  "ret v = (Inr v, [])"

definition throw :: "error \<Rightarrow> 'a io" where
  "throw e = (Inl e, [])"

definition lift :: "error + 'a \<Rightarrow> 'a io" where
  "lift r = (r, [])"

definition warning :: "string \<Rightarrow> unit io" where
  "warning msg = (Inr (), [Warning msg])"

definition bind :: "'a io \<Rightarrow> ('a \<Rightarrow> 'b io) \<Rightarrow> 'b io" where
  "bind m f =
     (case m of
        (Inl e, lg) \<Rightarrow> (Inl e, lg)
      | (Inr v, lg) \<Rightarrow> (case f v of (r, lg') \<Rightarrow> (r, lg @ lg')))"

text \<open>\<^verbatim>\<open>try { body } catch (error) { handler }\<close>\<close>

definition try_catch :: "'a io \<Rightarrow> (error \<Rightarrow> 'a io) \<Rightarrow> 'a io" where
  "try_catch body handler =
     (case body of
        (Inl e, lg) \<Rightarrow> (case handler e of (r, lg') \<Rightarrow> (r, lg @ lg'))
      | (Inr v, lg) \<Rightarrow> (Inr v, lg))"

text \<open>
  The data read from outside. The manifests are taken at the types the code declares for
  what it reads from them: \<^verbatim>\<open>name\<close> and \<^verbatim>\<open>version\<close> are \<^verbatim>\<open>string | undefined\<close>, \<^verbatim>\<open>build\<close> is
  \<^verbatim>\<open>string | string[] | undefined\<close>, and the \<^verbatim>\<open>turbo\<close> entry of a dependency section is
  \<^verbatim>\<open>string | undefined\<close>.
\<close>

datatype Build = Single string | Many "string list"

record PackageJson =
  json_name :: "string option"
  json_version :: "string option"
  json_build :: "Build option"

record RootPackageJson =
  devDependencies :: "(string \<rightharpoonup> string) option"
  dependencies :: "(string \<rightharpoonup> string) option"

text \<open>What \<^verbatim>\<open>existsSync\<close> and \<^verbatim>\<open>JSON.parse(readFileSync(...))\<close> find at a path: no file; a
  file on which the \<^verbatim>\<open>try\<close> block that reads it throws (it cannot be read, it is not JSON, it
  is the JSON value \<^verbatim>\<open>null\<close>, or a field is not of its declared type where the code calls a
  method on it); or the parsed document, at the declared types.\<close>

datatype 'a json_file = Missing | Unparsable | Parsed 'a

record ExecOutput =
  exitCode :: int
  stdout :: string
  stderr :: string

record TurboItem =
  item_name :: string
  item_path :: string

record TurboQueryResult =
  packageManager :: string
  packages_count :: int
  packages_items :: "TurboItem list"

text \<open>
  The collaborators: \<^verbatim>\<open>process\<close>, \<^verbatim>\<open>os\<close>, \<^verbatim>\<open>path\<close>, \<^verbatim>\<open>fs\<close>, \<^verbatim>\<open>@actions/cache\<close>, \<^verbatim>\<open>@actions/exec\<close> and
  \<^verbatim>\<open>JSON.parse\<close> on the tool's output (\<open>Inl\<close> when it throws, or when the parsed value has
  no \<^verbatim>\<open>packages.items\<close> to read).
\<close>

record world =
  platform :: string
  arch :: string
  homedir :: string
  join :: "string list \<Rightarrow> string"
  resolve :: "string \<Rightarrow> string \<Rightarrow> string"
  root_package_json :: "RootPackageJson json_file"
  package_json_at :: "string \<Rightarrow> PackageJson json_file"
  restoreCache :: "string list \<Rightarrow> string \<Rightarrow> error + string option"
  saveCache :: "string list \<Rightarrow> string \<Rightarrow> error + int"
  getExecOutput :: "string \<Rightarrow> string list \<Rightarrow> error + ExecOutput"
  JSON_parse :: "string \<Rightarrow> error + TurboQueryResult"

text \<open>Truthiness of a \<^verbatim>\<open>string | undefined\<close>; \<^verbatim>\<open>a || b\<close>; \<^verbatim>\<open>section?.turbo\<close>.\<close>

definition truthy :: "string option \<Rightarrow> bool" where
  "truthy v = (case v of None \<Rightarrow> False | Some s \<Rightarrow> s \<noteq> [])"

definition or_else :: "string option \<Rightarrow> string option \<Rightarrow> string option" where
  "or_else a b = (if truthy a then a else b)"

definition optional_turbo :: "(string \<rightharpoonup> string) option \<Rightarrow> string option" where
  "optional_turbo section = (case section of None \<Rightarrow> None | Some deps \<Rightarrow> deps ''turbo'')"

section \<open>turbo.ts\<close>

text \<open>
  \<open>getTurboVersion\<close>: without a root manifest the \<^verbatim>\<open>try\<close> block returns \<^verbatim>\<open>undefined\<close>; when
  reading it throws, the \<^verbatim>\<open>catch\<close> throws the fixed error; otherwise the result is
  \<^verbatim>\<open>packageJson.devDependencies?.turbo || packageJson.dependencies?.turbo\<close>.
\<close>

definition getTurboVersion :: "world \<Rightarrow> error + string option" where
  "getTurboVersion w =
     (case root_package_json w of
        Missing \<Rightarrow> Inr None
      | Unparsable \<Rightarrow> Inl (Error ''Failed to fetch package.json in repo root folder'')
      | Parsed packageJson \<Rightarrow>
          Inr (or_else (optional_turbo (devDependencies packageJson))
                       (optional_turbo (dependencies packageJson))))"

text \<open>The cache key and the cache path are the two constants at the head of
  \<^verbatim>\<open>ensureTurboCache\<close>; \<^verbatim>\<open>join\<close> is \<^verbatim>\<open>path.join\<close>, a collaborator of the world.\<close>

definition cacheKey :: "world \<Rightarrow> string \<Rightarrow> string" where
  "cacheKey w turboVersion = ''npx-turbo-'' @ turboVersion @ ''-'' @ platform w @ ''-'' @ arch w"

definition npxCachePath :: "world \<Rightarrow> string" where
  "npxCachePath w = join w [homedir w, ''.npm'', ''_npx'']"

definition ensureTurboCache :: "world \<Rightarrow> string \<Rightarrow> unit io" where
  "ensureTurboCache w turboVersion =
     bind
       (try_catch
          (bind (lift (restoreCache w [npxCachePath w] (cacheKey w turboVersion)))
             (\<lambda>cacheHit. ret (truthy cacheHit)))
          (\<lambda>error. bind (warning (''Cache restore failed: '' @ String_error error))
             (\<lambda>_. ret False)))
       (\<lambda>returned.
          if returned then ret ()
          else try_catch
            (bind (lift (getExecOutput w ''npx'' [''turbo@'' @ turboVersion, ''--version'']))
               (\<lambda>downloadOutput.
                  if exitCode downloadOutput = 0
                  then try_catch
                    (bind (lift (saveCache w [npxCachePath w] (cacheKey w turboVersion)))
                       (\<lambda>_. ret ()))
                    (\<lambda>error. warning (''Failed to save cache: '' @ String_error error))
                  else ret ()))
            (\<lambda>error. warning (''Failed to pre-download turbo: '' @ String_error error)))"

text \<open>\<^verbatim>\<open>output.stdout.match(/\{[\s\S]*\}/)\<close>: from the first \<^verbatim>\<open>{\<close> to the last \<^verbatim>\<open>}\<close> after it.\<close>

definition match_json :: "string \<Rightarrow> string option" where
  "match_json out =
     (let from_brace = dropWhile (\<lambda>c. c \<noteq> CHR ''{'') out
      in if CHR ''}'' \<in> set from_brace
         then Some (rev (dropWhile (\<lambda>c. c \<noteq> CHR ''}'') (rev from_brace)))
         else None)"

text \<open>
  \<open>getTurboPackages\<close>, in the version of the file that warms the cache (the older copy in
  the file is the same function without that step). The version lookup and the warm-up
  stand before the \<^verbatim>\<open>try\<close> block; the three \<^verbatim>\<open>throw\<close> statements of the listing stand inside
  it, under its \<^verbatim>\<open>catch\<close>.
\<close>

definition getTurboPackages :: "world \<Rightarrow> TurboItem list io" where
  "getTurboPackages w =
     bind (lift (getTurboVersion w))
       (\<lambda>resolved.
          case resolved of
            None \<Rightarrow> throw (Error ''Repo does not have Turborepo installed'')
          | Some turboVersion \<Rightarrow>
              if turboVersion = []
              then throw (Error ''Repo does not have Turborepo installed'')
              else bind (ensureTurboCache w turboVersion)
                (\<lambda>_. try_catch
                   (bind (lift (getExecOutput w ''npx''
                                  [''turbo@'' @ turboVersion, ''ls'', ''--output=json'']))
                      (\<lambda>output.
                         if exitCode output \<noteq> 0
                         then throw (Error (''Failed to get turbo packages: '' @ stderr output))
                         else (case match_json (stdout output) of
                                 None \<Rightarrow> throw (Error ''Turbo output is not valid JSON'')
                               | Some json \<Rightarrow>
                                   bind (lift (JSON_parse w json))
                                     (\<lambda>result. ret (packages_items result)))))
                   (\<lambda>_. throw (Error ''Failed to retrieve turbo packages''))))"

section \<open>package.ts\<close>

text \<open>The field \<open>ident\<close> is the source's \<^verbatim>\<open>identifier\<close>, a word that Isabelle reserves.
  \<open>cross_mark\<close> is the UTF-8 encoding of the cross mark that opens two messages.\<close>

record ProjectInfo =
  path :: string
  name :: "string option"
  version :: "string option"
  ident :: "string option"
  build :: "Build option"

definition cross_mark :: string where
  "cross_mark = [char_of (0xE2 :: nat), char_of (0x9D :: nat), char_of (0x8C :: nat)]"

definition getPackageInfo :: "world \<Rightarrow> string \<Rightarrow> ProjectInfo option io" where
  "getPackageInfo w packagePath =
     (let packageJsonPath = resolve w packagePath ''package.json''
      in case package_json_at w packageJsonPath of
           Missing \<Rightarrow>
             bind (warning (''  '' @ cross_mark @ '' No package.json found in '' @ packagePath))
               (\<lambda>_. ret None)
         | Unparsable \<Rightarrow> throw (Error (''Failed to retrieve package info: '' @ packageJsonPath))
         | Parsed packageJson \<Rightarrow>
             ret (Some \<lparr>path = packagePath,
                        name = json_name packageJson,
                        version = json_version packageJson,
                        ident = map_option normalizeIdentifier (json_name packageJson),
                        build = json_build packageJson\<rparr>))"

section \<open>main.ts\<close>

text \<open>
  \<^verbatim>\<open>result\<close> is the object literal \<^verbatim>\<open>{}\<close>: its own properties, in the order of their creation,
  are an association list, and a name that \<^verbatim>\<open>{}\<close> inherits from \<^verbatim>\<open>Object.prototype\<close> is found
  by \<^verbatim>\<open>result[build]\<close> although it is no own property.
\<close>

type_synonym TurboProjects = "(string \<times> ProjectInfo list) list"

definition Object_prototype_keys :: "string list" where
  "Object_prototype_keys =
     [''constructor'', ''__defineGetter__'', ''__defineSetter__'', ''hasOwnProperty'',
      ''__lookupGetter__'', ''__lookupSetter__'', ''isPrototypeOf'', ''propertyIsEnumerable'',
      ''toString'', ''valueOf'', ''__proto__'', ''toLocaleString'']"

text \<open>
  \<^verbatim>\<open>if (!result[build]) { result[build] = [] }; result[build].push(packageInfo)\<close>. An own
  group is an array, which is truthy. An inherited value is truthy too, so no group is
  created, and it has no \<^verbatim>\<open>push\<close>: the call throws. The statement stands twice in the
  source, on \<^verbatim>\<open>result[build]\<close> inside the loop over an array and on
  \<^verbatim>\<open>result[packageInfo.build]\<close> for a single string; \<open>callee\<close> is that expression, which the
  message of the error names.
\<close>

definition push_project ::
  "string \<Rightarrow> TurboProjects \<Rightarrow> string \<Rightarrow> ProjectInfo \<Rightarrow> error + TurboProjects" where
  "push_project callee result b packageInfo =
     (case map_of result b of
        Some projects \<Rightarrow> Inr (AList.update b (projects @ [packageInfo]) result)
      | None \<Rightarrow>
          if b \<in> set Object_prototype_keys
          then Inl (TypeError (callee @ ''.push is not a function''))
          else Inr (AList.update b [packageInfo] result))"

text \<open>\<^verbatim>\<open>for (const build of packageInfo.build) { ... }\<close>\<close>

fun push_each :: "TurboProjects \<Rightarrow> string list \<Rightarrow> ProjectInfo \<Rightarrow> error + TurboProjects" where
  "push_each result [] packageInfo = Inr result"
| "push_each result (b # bs) packageInfo =
     (case push_project ''result[build]'' result b packageInfo of
        Inl e \<Rightarrow> Inl e
      | Inr result' \<Rightarrow> push_each result' bs packageInfo)"

text \<open>The body of \<^verbatim>\<open>for (const pkg of packages)\<close>.\<close>

definition group_package :: "world \<Rightarrow> TurboProjects \<Rightarrow> TurboItem \<Rightarrow> TurboProjects io" where
  "group_package w result pkg =
     bind (getPackageInfo w (item_path pkg))
       (\<lambda>packageInfo.
          case packageInfo of
            None \<Rightarrow> ret result
          | Some info \<Rightarrow>
              (case build info of
                 None \<Rightarrow> ret result
               | Some (Many builds) \<Rightarrow> lift (push_each result builds info)
               | Some (Single b) \<Rightarrow>
                   if b = [] then ret result
                   else lift (push_project ''result[packageInfo.build]'' result b info)))"

fun group_packages :: "world \<Rightarrow> TurboProjects \<Rightarrow> TurboItem list \<Rightarrow> TurboProjects io" where
  "group_packages w result [] = ret result"
| "group_packages w result (pkg # pkgs) =
     (case group_package w result pkg of
        (Inl e, lg) \<Rightarrow> (Inl e, lg)
      | (Inr result', lg) \<Rightarrow>
          (case group_packages w result' pkgs of (r, lg') \<Rightarrow> (r, lg @ lg')))"

definition getProjects :: "world \<Rightarrow> TurboProjects io" where
  "getProjects w =
     try_catch
       (bind (getTurboPackages w) (\<lambda>packages. group_packages w [] packages))
       (\<lambda>error. throw (Error (''Analysis failed: '' @ message error)))"

text \<open>
  \<^verbatim>\<open>Object.keys\<close>, \<^verbatim>\<open>Object.entries\<close> and \<^verbatim>\<open>JSON.stringify\<close> list the own properties of an
  object with the array indices first, in ascending numeric order, and then the other names
  in the order of their creation. An array index is the canonical decimal numeral of an
  integer from \<open>0\<close> to \<open>2\<^sup>3\<^sup>2 - 2\<close>.
\<close>

definition decimal :: "string \<Rightarrow> int" where
  "decimal s = foldl (\<lambda>n c. 10 * n + (of_char c - 48)) 0 s"

definition is_array_index :: "string \<Rightarrow> bool" where
  "is_array_index s =
     (case s of
        [] \<Rightarrow> False
      | c # cs \<Rightarrow>
          list_all (\<lambda>d. d \<in> set digits) s \<and> (if c = CHR ''0'' then cs = [] else True)
          \<and> decimal s < 4294967295)"

definition Object_keys :: "TurboProjects \<Rightarrow> string list" where
  "Object_keys result =
     (let own = map fst result
      in sort_key decimal (filter is_array_index own)
         @ filter (\<lambda>k. \<not> is_array_index k) own)"

definition group_of :: "TurboProjects \<Rightarrow> string \<Rightarrow> ProjectInfo list" where
  "group_of result label = (case map_of result label of None \<Rightarrow> [] | Some projects \<Rightarrow> projects)"

definition Object_entries :: "TurboProjects \<Rightarrow> (string \<times> ProjectInfo list) list" where
  "Object_entries result = map (\<lambda>k. (k, group_of result k)) (Object_keys result)"

text \<open>\<^verbatim>\<open>run\<close>: the serialised text of \<^verbatim>\<open>JSON.stringify(result)\<close> is stood for by the entries
  it lists, in its order.\<close>

datatype action_outcome =
  setOutput string "(string \<times> ProjectInfo list) list"
| setFailed string

definition run :: "world \<Rightarrow> action_outcome \<times> log_line list" where
  "run w =
     (case getProjects w of
        (Inr result, lg) \<Rightarrow> (setOutput ''projects'' (Object_entries result), lg)
      | (Inl error, lg) \<Rightarrow> (setFailed (cross_mark @ '' Action failed: '' @ message error), lg))"

section \<open>Vocabulary of the statements\<close>

text \<open>The manifest that \<^verbatim>\<open>getPackageInfo\<close> reads for a package path.\<close>

definition manifest_of :: "world \<Rightarrow> string \<Rightarrow> PackageJson json_file" where
  "manifest_of w packagePath = package_json_at w (resolve w packagePath ''package.json'')"

text \<open>The record that \<^verbatim>\<open>getPackageInfo\<close> returns for a parsed manifest.\<close>

definition info_of :: "string \<Rightarrow> PackageJson \<Rightarrow> ProjectInfo" where
  "info_of packagePath packageJson =
     \<lparr>path = packagePath,
      name = json_name packageJson,
      version = json_version packageJson,
      ident = map_option normalizeIdentifier (json_name packageJson),
      build = json_build packageJson\<rparr>"

text \<open>A \<^verbatim>\<open>build\<close> field that is present and not empty, and the labels it carries.\<close>

definition nonempty_build :: "Build option \<Rightarrow> bool" where
  "nonempty_build b =
     (case b of None \<Rightarrow> False | Some (Single s) \<Rightarrow> s \<noteq> [] | Some (Many ls) \<Rightarrow> ls \<noteq> [])"

definition labels_of :: "Build option \<Rightarrow> string list" where
  "labels_of b =
     (case b of
        None \<Rightarrow> []
      | Some (Single s) \<Rightarrow> (if s = [] then [] else [s])
      | Some (Many ls) \<Rightarrow> ls)"

text \<open>The pairs of a label and a project in the order of discovery: package after package
  of the tool's list, and label after label of each package that has a manifest.\<close>

definition filed_by :: "world \<Rightarrow> TurboItem \<Rightarrow> (string \<times> ProjectInfo) list" where
  "filed_by w pkg =
     (case manifest_of w (item_path pkg) of
        Parsed packageJson \<Rightarrow>
          map (\<lambda>b. (b, info_of (item_path pkg) packageJson)) (labels_of (json_build packageJson))
      | _ \<Rightarrow> [])"

definition filed :: "world \<Rightarrow> TurboItem list \<Rightarrow> (string \<times> ProjectInfo) list" where
  "filed w packages = concat (map (filed_by w) packages)"

text \<open>The distinct elements of a list in the order of their first occurrence.\<close>

fun first_encounter :: "'a list \<Rightarrow> 'a list \<Rightarrow> 'a list" where
  "first_encounter seen [] = seen"
| "first_encounter seen (x # xs) =
     first_encounter (if x \<in> set seen then seen else seen @ [x]) xs"

text \<open>All the projects that occur in some group.\<close>

definition grouped :: "TurboProjects \<Rightarrow> ProjectInfo list" where
  "grouped result = concat (map snd result)"

text \<open>Appending one project to the group of one label, creating the group on first use.\<close>

definition append_entry :: "TurboProjects \<Rightarrow> string \<times> ProjectInfo \<Rightarrow> TurboProjects" where
  "append_entry result e = AList.update (fst e) (group_of result (fst e) @ [snd e]) result"

section \<open>Concrete runs\<close>

text \<open>
  A workspace of five packages: \<^verbatim>\<open>./lib\<close> builds for the labels \<^verbatim>\<open>a\<close> and \<^verbatim>\<open>b\<close>, \<^verbatim>\<open>./twice\<close>
  names the label \<^verbatim>\<open>a\<close> two times, \<^verbatim>\<open>./app\<close> has the single label \<^verbatim>\<open>docker\<close>, \<^verbatim>\<open>./plain\<close> has
  no \<^verbatim>\<open>build\<close> field and \<^verbatim>\<open>./ghost\<close> has no manifest. The cache is cold and every
  collaborator succeeds.
\<close>

definition lib_json :: PackageJson where
  "lib_json = \<lparr>json_name = Some ''@My/Lib!!'', json_version = Some ''1.0.0'',
               json_build = Some (Many [''a'', ''b''])\<rparr>"

definition twice_json :: PackageJson where
  "twice_json = \<lparr>json_name = Some ''twice'', json_version = None,
                 json_build = Some (Many [''a'', ''a''])\<rparr>"

definition app_json :: PackageJson where
  "app_json = \<lparr>json_name = Some ''@x/a'', json_version = None,
               json_build = Some (Single ''docker'')\<rparr>"

definition plain_json :: PackageJson where
  "plain_json = \<lparr>json_name = Some ''@x/b'', json_version = None, json_build = None\<rparr>"

definition demo_packages :: "TurboItem list" where
  "demo_packages =
     [\<lparr>item_name = ''@My/Lib!!'', item_path = ''./lib''\<rparr>,
      \<lparr>item_name = ''twice'', item_path = ''./twice''\<rparr>,
      \<lparr>item_name = ''@x/a'', item_path = ''./app''\<rparr>,
      \<lparr>item_name = ''@x/b'', item_path = ''./plain''\<rparr>,
      \<lparr>item_name = ''ghost'', item_path = ''./ghost''\<rparr>]"

definition demo_world :: world where
  "demo_world =
     \<lparr>platform = ''linux'', arch = ''x64'', homedir = ''/home/runner'',
      join = (\<lambda>parts. case parts of [] \<Rightarrow> ''.''
                        | p # ps \<Rightarrow> foldl (\<lambda>acc q. acc @ ''/'' @ q) p ps),
      resolve = (\<lambda>dir f. dir @ ''/'' @ f),
      root_package_json =
        Parsed \<lparr>devDependencies = Some [''turbo'' \<mapsto> ''2.5.8''], dependencies = None\<rparr>,
      package_json_at =
        (\<lambda>p. case map_of [(''./lib/package.json'', lib_json),
                            (''./twice/package.json'', twice_json),
                            (''./app/package.json'', app_json),
                            (''./plain/package.json'', plain_json)] p of
               None \<Rightarrow> Missing
             | Some packageJson \<Rightarrow> Parsed packageJson),
      restoreCache = (\<lambda>paths k. Inr None),
      saveCache = (\<lambda>paths k. Inr 1),
      getExecOutput = (\<lambda>cmd args. Inr \<lparr>exitCode = 0, stdout = ''turbo 2.5.8 {items}'', stderr = []\<rparr>),
      JSON_parse =
        (\<lambda>text. if text = ''{items}''
                then Inr \<lparr>packageManager = ''npm'', packages_count = 5,
                          packages_items = demo_packages\<rparr>
                else Inl (SyntaxError ''Unexpected token''))\<rparr>"

definition lib_info :: ProjectInfo where
  "lib_info = \<lparr>path = ''./lib'', name = Some ''@My/Lib!!'', version = Some ''1.0.0'',
               ident = Some ''my-lib'', build = Some (Many [''a'', ''b''])\<rparr>"

definition twice_info :: ProjectInfo where
  "twice_info = \<lparr>path = ''./twice'', name = Some ''twice'', version = None,
                 ident = Some ''twice'', build = Some (Many [''a'', ''a''])\<rparr>"

definition app_info :: ProjectInfo where
  "app_info = \<lparr>path = ''./app'', name = Some ''@x/a'', version = None,
               ident = Some ''x-a'', build = Some (Single ''docker'')\<rparr>"

definition demo_result :: TurboProjects where
  "demo_result =
     [(''a'', [lib_info, twice_info, twice_info]), (''b'', [lib_info]), (''docker'', [app_info])]"

text \<open>The same workspace when the listing subprocess exits with code 1 and the error
  stream \<^verbatim>\<open>boom\<close>.\<close>

definition boom_world :: world where
  "boom_world =
     demo_world\<lparr>getExecOutput :=
       (\<lambda>cmd args. Inr \<lparr>exitCode = 1, stdout = [], stderr = ''boom''\<rparr>)\<rparr>"

text \<open>A root manifest whose development entry for the tool is the empty string, next to
  a runtime entry.\<close>

definition empty_dev_root :: RootPackageJson where
  "empty_dev_root =
     \<lparr>devDependencies = Some [''turbo'' \<mapsto> []], dependencies = Some [''turbo'' \<mapsto> ''2.5.8'']\<rparr>"

definition empty_dev_world :: world where
  "empty_dev_world = demo_world\<lparr>root_package_json := Parsed empty_dev_root\<rparr>"

text \<open>Two packages whose labels are the numerals \<^verbatim>\<open>2\<close> and \<^verbatim>\<open>1\<close>, discovered in this order.\<close>

definition index_packages :: "TurboItem list" where
  "index_packages =
     [\<lparr>item_name = ''second'', item_path = ''./second''\<rparr>,
      \<lparr>item_name = ''first'', item_path = ''./first''\<rparr>]"

definition second_info :: ProjectInfo where
  "second_info = \<lparr>path = ''./second'', name = Some ''second'', version = None,
                  ident = Some ''second'', build = Some (Single ''2'')\<rparr>"

definition first_info :: ProjectInfo where
  "first_info = \<lparr>path = ''./first'', name = Some ''first'', version = None,
                 ident = Some ''first'', build = Some (Single ''1'')\<rparr>"

definition index_world :: world where
  "index_world =
     demo_world\<lparr>
       package_json_at :=
         (\<lambda>p. if p = ''./second/package.json''
              then Parsed \<lparr>json_name = Some ''second'', json_version = None,
                           json_build = Some (Single ''2'')\<rparr>
              else if p = ''./first/package.json''
              then Parsed \<lparr>json_name = Some ''first'', json_version = None,
                           json_build = Some (Single ''1'')\<rparr>
              else Missing),
       JSON_parse :=
         (\<lambda>text. Inr \<lparr>packageManager = ''npm'', packages_count = 2,
                        packages_items = index_packages\<rparr>)\<rparr>"

definition index_result :: TurboProjects where
  "index_result = [(''2'', [second_info]), (''1'', [first_info])]"

text \<open>Failing collaborators of the cache: the restore throws and the pre-download throws;
  the restore throws and the save throws after a download that succeeded.\<close>

definition offline_world :: world where
  "offline_world =
     demo_world\<lparr>restoreCache := (\<lambda>paths k. Inl (Error ''network'')),
                getExecOutput := (\<lambda>cmd args. Inl (Error ''spawn npx ENOENT''))\<rparr>"

definition readonly_world :: world where
  "readonly_world =
     demo_world\<lparr>restoreCache := (\<lambda>paths k. Inl (Error ''network'')),
                saveCache := (\<lambda>paths k. Inl (Error ''read-only''))\<rparr>"

text \<open>A cold cache and a pre-download that exits with the code 1, which \<^verbatim>\<open>getExecOutput\<close>
  delivers as a thrown error.\<close>

definition exit_one_world :: world where
  "exit_one_world =
     demo_world\<lparr>getExecOutput :=
       (\<lambda>cmd args. Inl (Error ''The process npx failed with exit code 1''))\<rparr>"

text \<open>One package whose label is \<^verbatim>\<open>constructor\<close>.\<close>

definition constructor_world :: world where
  "constructor_world =
     demo_world\<lparr>
       package_json_at :=
         (\<lambda>p. Parsed \<lparr>json_name = Some ''odd'', json_version = None,
                       json_build = Some (Single ''constructor'')\<rparr>),
       JSON_parse :=
         (\<lambda>text. Inr \<lparr>packageManager = ''npm'', packages_count = 1,
                        packages_items = [\<lparr>item_name = ''odd'', item_path = ''./odd''\<rparr>]\<rparr>)\<rparr>"

section \<open>Properties of the identifier normalisation\<close>

lemma is_word_dash [simp]: "\<not> is_word CHR ''-''"
  by (simp add: is_word_def)

lemma is_word_lower [simp]: "is_word (lower_char c) = is_word c"
  by (auto simp: is_word_def lower_char_def Let_def)

lemma lower_char_dash [simp]: "(lower_char c = CHR ''-'') = (c = CHR ''-'')"
proof
  assume h: "lower_char c = CHR ''-''"
  show "c = CHR ''-''"
  proof (rule ccontr)
    assume "c \<noteq> CHR ''-''"
    with h have r: "65 \<le> (of_char c :: nat)" "(of_char c :: nat) \<le> 90"
      "char_of (of_char c + 32 :: nat) = CHR ''-''"
      by (auto simp: lower_char_def Let_def split: if_splits)
    from r(3) have "of_char (char_of (of_char c + 32 :: nat)) = (of_char CHR ''-'' :: nat)"
      by simp
    then have "(of_char c + 32) mod 256 = (45::nat)" by simp
    with r(1,2) show False by simp
  qed
next
  assume "c = CHR ''-''"
  then show "lower_char c = CHR ''-''" by (simp add: lower_char_def)
qed

lemma lower_char_idem [simp]: "lower_char (lower_char c) = lower_char c"
  by (auto simp: lower_char_def Let_def)

lemma replace_nonword_chars: "c \<in> set (replace_nonword s) \<Longrightarrow> is_word c \<or> c = CHR ''-''"
proof (induction s rule: replace_nonword.induct)
  case 1
  then show ?case by simp
next
  case (2 c cs)
  then show ?case by (auto split: if_splits)
qed

lemma replace_nonword_no_lead:
  "s = [] \<or> is_word (hd s) \<Longrightarrow> \<not> prefix ''-'' (replace_nonword s)"
  by (cases s) auto

lemma dropWhile_head: "dropWhile P xs = [] \<or> \<not> P (hd (dropWhile P xs))"
  by (metis hd_dropWhile)

lemma replace_nonword_no_double: "\<not> sublist ''--'' (replace_nonword s)"
proof (induction s rule: replace_nonword.induct)
  case 1
  then show ?case by simp
next
  case (2 c cs)
  show ?case
  proof (cases "is_word c")
    case True
    with 2 show ?thesis by (auto simp: sublist_Cons_right)
  next
    case False
    have "\<not> prefix ''-'' (replace_nonword (dropWhile (\<lambda>d. \<not> is_word d) cs))"
      using dropWhile_head[of "\<lambda>d. \<not> is_word d" cs] by (intro replace_nonword_no_lead) auto
    with False 2 show ?thesis by (auto simp: sublist_Cons_right)
  qed
qed

lemma replace_nonword_fixed:
  "\<forall>c\<in>set t. is_word c \<or> c = CHR ''-'' \<Longrightarrow> \<not> sublist ''--'' t \<Longrightarrow> replace_nonword t = t"
proof (induction t rule: replace_nonword.induct)
  case 1
  then show ?case by simp
next
  case (2 c cs)
  show ?case
  proof (cases "is_word c")
    case True
    with 2 show ?thesis by (auto simp: sublist_Cons_right)
  next
    case False
    with 2(3) have c: "c = CHR ''-''" by simp
    with 2(4) have "\<not> prefix ''-'' cs" by (auto simp: sublist_Cons_right)
    then have "cs = [] \<or> hd cs \<noteq> CHR ''-''" by (cases cs) auto
    with 2(3) have "cs = [] \<or> is_word (hd cs)" by (cases cs) auto
    then have d: "dropWhile (\<lambda>d. \<not> is_word d) cs = cs" by (cases cs) auto
    from 2(4) have "\<not> sublist ''--'' cs" by (auto simp: sublist_Cons_right)
    with 2 False d c show ?thesis by simp
  qed
qed

lemma toLowerCase_no_double:
  assumes "\<not> sublist ''--'' s" shows "\<not> sublist ''--'' (toLowerCase s)"
proof
  assume "sublist ''--'' (toLowerCase s)"
  then have "\<exists>u. sublist u s \<and> ''--'' = map lower_char u"
    unfolding toLowerCase_def by (rule sublist_map_rightE)
  then obtain u where u: "sublist u s" and m: "map lower_char u = ''--''" by metis
  from m have "u = ''--''" by (auto simp: map_eq_Cons_conv)
  with u assms show False by simp
qed

lemma strip_dashes_sublist: "sublist (strip_dashes s) s"
proof -
  let ?P = "\<lambda>c. c = CHR ''-''"
  have "suffix (dropWhile ?P (rev (dropWhile ?P s))) (rev (dropWhile ?P s))"
    by (rule suffix_dropWhile)
  then have "prefix (strip_dashes s) (dropWhile ?P s)"
    unfolding suffix_to_prefix strip_dashes_def by simp
  then have "sublist (strip_dashes s) (dropWhile ?P s)" by (rule prefix_imp_sublist)
  moreover have "sublist (dropWhile ?P s) s"
    by (rule suffix_imp_sublist) (rule suffix_dropWhile)
  ultimately show ?thesis by (rule sublist_order.order.trans)
qed

lemma dropWhile_fixed: "xs = [] \<or> \<not> P (hd xs) \<Longrightarrow> dropWhile P xs = xs"
  by (cases xs) auto

lemma strip_dashes_fixed:
  assumes "t = [] \<or> (hd t \<noteq> CHR ''-'' \<and> last t \<noteq> CHR ''-'')"
  shows "strip_dashes t = t"
proof (cases "t = []")
  case True
  then show ?thesis by (simp add: strip_dashes_def)
next
  case False
  with assms have h: "hd t \<noteq> CHR ''-''" and l: "last t \<noteq> CHR ''-''" by auto
  from h have a: "dropWhile (\<lambda>c. c = CHR ''-'') t = t" by (intro dropWhile_fixed) simp
  from False l have "dropWhile (\<lambda>c. c = CHR ''-'') (rev t) = rev t"
    by (intro dropWhile_fixed) (simp add: hd_rev)
  with a show ?thesis by (simp add: strip_dashes_def)
qed

lemma prefix_hd: "prefix xs ys \<Longrightarrow> xs \<noteq> [] \<Longrightarrow> hd xs = hd ys"
  by (auto simp: prefix_def)

lemma drop_trailing_ends:
  assumes a: "a = [] \<or> \<not> P (hd a)" and r: "r = rev (dropWhile P (rev a))" and n: "r \<noteq> []"
  shows "\<not> P (hd r) \<and> \<not> P (last r)"
proof -
  define b where "b = dropWhile P (rev a)"
  from r n have b: "b \<noteq> []" and rb: "r = rev b" by (simp_all add: b_def)
  from b have "\<not> P (hd b)" unfolding b_def by (rule hd_dropWhile)
  with b have l: "\<not> P (last r)" by (simp add: rb last_rev)
  have "suffix b (rev a)" unfolding b_def by (rule suffix_dropWhile)
  then have p: "prefix r a" unfolding suffix_to_prefix rb by simp
  from p n have h: "hd r = hd a" by (rule prefix_hd)
  from p n have "a \<noteq> []" by (auto simp: prefix_def)
  with a h l show ?thesis by simp
qed

lemma strip_dashes_ends:
  "strip_dashes s = [] \<or> (hd (strip_dashes s) \<noteq> CHR ''-'' \<and> last (strip_dashes s) \<noteq> CHR ''-'')"
proof (cases "strip_dashes s = []")
  case True
  then show ?thesis by simp
next
  case False
  have "dropWhile (\<lambda>c. c = CHR ''-'') s = [] \<or> \<not> (hd (dropWhile (\<lambda>c. c = CHR ''-'') s) = CHR ''-'')"
    by (rule dropWhile_head)
  moreover have "strip_dashes s = rev (dropWhile (\<lambda>c. c = CHR ''-'') (rev (dropWhile (\<lambda>c. c = CHR ''-'') s)))"
    by (simp add: strip_dashes_def)
  ultimately have "\<not> (hd (strip_dashes s) = CHR ''-'') \<and> \<not> (last (strip_dashes s) = CHR ''-'')"
    using False by (rule drop_trailing_ends[where P = "\<lambda>c. c = CHR ''-''"])
  then show ?thesis by simp
qed

lemma set_strip_dashes: "set (strip_dashes s) \<subseteq> set s"
  using strip_dashes_sublist[of s] by (rule set_mono_sublist)

text \<open>
  Claim C3. The identifier normalisation is total and idempotent: normalising an already
  normalised name changes nothing, for every name. Totality is that of the function
  \<open>normalizeIdentifier\<close> itself: it is defined on every string, its recursion terminates, and
  its value is a string (no branch of it throws).
\<close>

theorem normalizeIdentifier_idempotent: "normalizeIdentifier (normalizeIdentifier s) = normalizeIdentifier s"
proof -
  let ?t = "normalizeIdentifier s"
  have sub: "sublist ?t (toLowerCase (replace_nonword s))"
    unfolding normalizeIdentifier_def by (rule strip_dashes_sublist)
  have "\<not> sublist ''--'' (toLowerCase (replace_nonword s))"
    by (rule toLowerCase_no_double) (rule replace_nonword_no_double)
  moreover have "sublist ''--'' ?t \<Longrightarrow> sublist ''--'' (toLowerCase (replace_nonword s))"
    by (erule sublist_order.order.trans) (rule sub)
  ultimately have nd: "\<not> sublist ''--'' ?t" by blast
  have chars: "\<forall>c\<in>set ?t. \<exists>d\<in>set (replace_nonword s). c = lower_char d"
    using set_strip_dashes[of "toLowerCase (replace_nonword s)"]
    by (auto simp: normalizeIdentifier_def toLowerCase_def)
  have "\<forall>c\<in>set ?t. is_word c \<or> c = CHR ''-''"
  proof
    fix c assume "c \<in> set ?t"
    with chars obtain d where d: "d \<in> set (replace_nonword s)" "c = lower_char d" by blast
    from replace_nonword_chars[OF d(1)] d(2) show "is_word c \<or> c = CHR ''-''" by auto
  qed
  with nd have r: "replace_nonword ?t = ?t" by (intro replace_nonword_fixed)
  from chars have l: "toLowerCase ?t = ?t"
    unfolding toLowerCase_def by (intro map_idI) auto
  have "strip_dashes ?t = ?t"
    by (rule strip_dashes_fixed) (simp add: normalizeIdentifier_def strip_dashes_ends)
  with r l show ?thesis by (simp add: normalizeIdentifier_def[of "normalizeIdentifier s"])
qed


lemma char_in_range:
  assumes "lo \<le> (of_char c :: nat)" "(of_char c :: nat) < hi"
  shows "c \<in> set (map char_of [lo..<hi])"
proof -
  from assms have "(of_char c :: nat) \<in> set [lo..<hi]" by simp
  then have "char_of (of_char c :: nat) \<in> char_of ` set [lo..<hi]" by (rule imageI)
  then show ?thesis by simp
qed

lemma upper_letters_range: "map char_of [65..<91::nat] = upper_letters"
  by code_simp

lemma lower_letters_range: "map char_of [97..<123::nat] = lower_letters"
  by code_simp

lemma digits_range: "map char_of [48..<58::nat] = digits"
  by code_simp

lemma upper_letters_iff: "c \<in> set upper_letters \<longleftrightarrow> 65 \<le> (of_char c :: nat) \<and> (of_char c :: nat) \<le> 90"
proof
  assume "c \<in> set upper_letters"
  then show "65 \<le> (of_char c :: nat) \<and> (of_char c :: nat) \<le> 90"
    by (auto simp: upper_letters_def)
next
  assume "65 \<le> (of_char c :: nat) \<and> (of_char c :: nat) \<le> 90"
  then show "c \<in> set upper_letters"
    using char_in_range[of 65 c 91] by (simp only: upper_letters_range) simp
qed

lemma lower_letters_iff: "c \<in> set lower_letters \<longleftrightarrow> 97 \<le> (of_char c :: nat) \<and> (of_char c :: nat) \<le> 122"
proof
  assume "c \<in> set lower_letters"
  then show "97 \<le> (of_char c :: nat) \<and> (of_char c :: nat) \<le> 122"
    by (auto simp: lower_letters_def)
next
  assume "97 \<le> (of_char c :: nat) \<and> (of_char c :: nat) \<le> 122"
  then show "c \<in> set lower_letters"
    using char_in_range[of 97 c 123] by (simp only: lower_letters_range) simp
qed

lemma digits_iff: "c \<in> set digits \<longleftrightarrow> 48 \<le> (of_char c :: nat) \<and> (of_char c :: nat) \<le> 57"
proof
  assume "c \<in> set digits"
  then show "48 \<le> (of_char c :: nat) \<and> (of_char c :: nat) \<le> 57"
    by (auto simp: digits_def)
next
  assume "48 \<le> (of_char c :: nat) \<and> (of_char c :: nat) \<le> 57"
  then show "c \<in> set digits"
    using char_in_range[of 48 c 58] by (simp only: digits_range) simp
qed

lemma underscore_iff: "c = CHR ''_'' \<longleftrightarrow> (of_char c :: nat) = 95"
proof
  assume "(of_char c :: nat) = 95"
  then have "char_of (of_char c :: nat) = char_of (95 :: nat)" by simp
  also have "char_of (95 :: nat) = CHR ''_''" by code_simp
  finally show "c = CHR ''_''" by simp
qed simp

lemma spec_word_char_eq: "spec_word_char c = is_word c"
  unfolding spec_word_char_def is_word_def Let_def set_append Un_iff
    upper_letters_iff lower_letters_iff digits_iff
  by (auto simp: underscore_iff)

lemma spec_lower_upper: "\<forall>c\<in>set upper_letters.
    (case map_of (zip upper_letters lower_letters) c of Some d \<Rightarrow> d | None \<Rightarrow> c) = lower_char c"
  by code_simp

lemma spec_lower_char_eq:
  "(case map_of (zip upper_letters lower_letters) c of Some d \<Rightarrow> d | None \<Rightarrow> c) = lower_char c"
proof (cases "c \<in> set upper_letters")
  case True
  with spec_lower_upper show ?thesis by (rule bspec)
next
  case False
  have "length upper_letters = length lower_letters"
    by (simp add: upper_letters_def lower_letters_def)
  then have "map fst (zip upper_letters lower_letters) = upper_letters" by simp
  with False have "c \<notin> fst ` set (zip upper_letters lower_letters)"
    by (metis set_map)
  then have "map_of (zip upper_letters lower_letters) c = None"
    by (simp add: map_of_eq_None_iff)
  moreover from False have "lower_char c = c"
    by (auto simp: upper_letters_iff lower_char_def Let_def)
  ultimately show ?thesis by simp
qed

lemma spec_lower_eq: "spec_lower s = toLowerCase s"
  by (simp add: spec_lower_def toLowerCase_def spec_lower_char_eq)

lemma spec_collapse_eq:
  "spec_collapse False s = replace_nonword s \<and>
   spec_collapse True s = replace_nonword (dropWhile (\<lambda>d. \<not> is_word d) s)"
  by (induction s) (simp_all add: spec_word_char_eq)

lemma spec_strip_leading_eq: "spec_strip_leading s = dropWhile (\<lambda>c. c = CHR ''-'') s"
  by (induction s) simp_all

lemma spec_strip_trailing_eq: "spec_strip_trailing s = rev (dropWhile (\<lambda>c. c = CHR ''-'') (rev s))"
  by (induction s) (auto simp: dropWhile_append Let_def)

lemma spec_normalize_eq: "normalizeIdentifier s = spec_normalize s"
  by (simp add: normalizeIdentifier_def spec_normalize_def strip_dashes_def spec_lower_eq
      spec_collapse_eq spec_strip_leading_eq spec_strip_trailing_eq)

lemma normalize_all_symbol: "\<forall>c\<in>set s. \<not> is_word c \<Longrightarrow> normalizeIdentifier s = []"
proof -
  assume h: "\<forall>c\<in>set s. \<not> is_word c"
  then have d: "dropWhile (\<lambda>d. \<not> is_word d) s = []" by simp
  have "replace_nonword s = [] \<or> replace_nonword s = ''-''"
  proof (cases s)
    case Nil then show ?thesis by simp
  next
    case (Cons c cs)
    with h have nw: "\<not> is_word c" and d: "dropWhile (\<lambda>d. \<not> is_word d) cs = []" by simp_all
    have "replace_nonword (c # cs) = ''-''"
      by (simp only: replace_nonword.simps nw d if_False)
    with Cons show ?thesis by simp
  qed
  then show ?thesis by (auto simp: normalizeIdentifier_def toLowerCase_def strip_dashes_def)
qed

text \<open>
  Claim C4. For every package name the derived identifier is what the specification
  describes (each maximal run of characters that are not letters, digits or underscore
  becomes one dash, then lower case, then leading and trailing dashes stripped); the name
  \<^verbatim>\<open>@My/Lib!!\<close> gives \<^verbatim>\<open>my-lib\<close>, and an empty or all-symbol name gives the empty string.
  The letters of the specification are read as the ASCII letters, which is what \<^verbatim>\<open>\W\<close>
  excludes.
\<close>

theorem normalizeIdentifier_refines_spec:
  "normalizeIdentifier s = spec_normalize s
   \<and> normalizeIdentifier ''@My/Lib!!'' = ''my-lib''
   \<and> normalizeIdentifier [] = []
   \<and> ((\<forall>c\<in>set s. \<not> spec_word_char c) \<longrightarrow> normalizeIdentifier s = [])"
proof -
  have "normalizeIdentifier ''@My/Lib!!'' = ''my-lib''" by code_simp
  moreover have "normalizeIdentifier [] = []" by code_simp
  moreover have "(\<forall>c\<in>set s. \<not> spec_word_char c) \<longrightarrow> normalizeIdentifier s = []"
    by (simp add: spec_word_char_eq normalize_all_symbol)
  ultimately show ?thesis using spec_normalize_eq by blast
qed

theorem normalizeIdentifier_refines_spec_witness:
  "normalizeIdentifier ''@/!! ..'' = spec_normalize ''@/!! ..''
   \<and> list_all (\<lambda>c. \<not> spec_word_char c) ''@/!! ..''
   \<and> normalizeIdentifier ''@/!! ..'' = []"
proof -
  have h: "\<forall>c\<in>set ''@/!! ..''. \<not> spec_word_char c" by code_simp
  then have l: "list_all (\<lambda>c. \<not> spec_word_char c) ''@/!! ..''" by (simp only: list_all_iff)
  from normalizeIdentifier_refines_spec[of "''@/!! ..''"] h l show ?thesis by blast
qed

section \<open>Properties of the grouping pipeline\<close>

lemma fst_bind_Inr:
  "fst (bind m f) = Inr y \<longleftrightarrow> (\<exists>v. fst m = Inr v \<and> fst (f v) = Inr y)"
  by (auto simp: bind_def split: prod.splits sum.splits)

lemma fst_try_catch_throw:
  "fst (try_catch body (\<lambda>e. throw (h e))) = Inr y \<longleftrightarrow> fst body = Inr y"
  by (auto simp: try_catch_def throw_def split: prod.splits sum.splits)

lemma fst_lift [simp]: "fst (lift r) = r"
  by (simp add: lift_def)

lemma fst_ret [simp]: "fst (ret v) = Inr v"
  by (simp add: ret_def)

lemma fst_throw [simp]: "fst (throw e) = Inl e"
  by (simp add: throw_def)

lemma push_project_append:
  "push_project callee result b i = Inr r \<Longrightarrow> r = append_entry result (b, i)"
  by (auto simp: push_project_def append_entry_def group_of_def split: option.splits if_splits)

lemma push_each_append:
  "push_each result bs i = Inr r \<Longrightarrow> r = foldl append_entry result (map (\<lambda>b. (b, i)) bs)"
proof (induction bs arbitrary: result)
  case Nil
  then show ?case by simp
next
  case (Cons b bs)
  then show ?case by (auto split: sum.splits dest: push_project_append)
qed

lemma fst_getPackageInfo:
  "fst (getPackageInfo w p) =
     (case manifest_of w p of
        Missing \<Rightarrow> Inr None
      | Unparsable \<Rightarrow> Inl (Error (''Failed to retrieve package info: '' @ resolve w p ''package.json''))
      | Parsed pj \<Rightarrow> Inr (Some (info_of p pj)))"
  by (simp add: getPackageInfo_def manifest_of_def info_of_def bind_def warning_def ret_def throw_def
      split: json_file.splits)

lemma group_package_append:
  assumes "fst (group_package w result pkg) = Inr r"
  shows "r = foldl append_entry result (filed_by w pkg)"
proof -
  from assms obtain v where v: "fst (getPackageInfo w (item_path pkg)) = Inr v"
    and r: "fst (case v of None \<Rightarrow> ret result
       | Some info \<Rightarrow> (case build info of None \<Rightarrow> ret result
            | Some (Many builds) \<Rightarrow> lift (push_each result builds info)
            | Some (Single b) \<Rightarrow> if b = [] then ret result
                else lift (push_project ''result[packageInfo.build]'' result b info))) = Inr r"
    unfolding group_package_def fst_bind_Inr by blast
  show ?thesis
  proof (cases "manifest_of w (item_path pkg)")
    case Missing
    with v r show ?thesis by (simp add: fst_getPackageInfo filed_by_def)
  next
    case Unparsable
    with v show ?thesis by (simp add: fst_getPackageInfo)
  next
    case (Parsed pj)
    with v have v': "v = Some (info_of (item_path pkg) pj)" by (simp add: fst_getPackageInfo)
    have b: "build (info_of (item_path pkg) pj) = json_build pj" by (simp add: info_of_def)
    show ?thesis
    proof (cases "json_build pj")
      case None
      with r v' b Parsed show ?thesis by (simp add: filed_by_def labels_of_def)
    next
      case (Some bd)
      show ?thesis
      proof (cases bd)
        case (Single s)
        with r v' b Parsed Some show ?thesis
          by (auto simp: filed_by_def labels_of_def dest: push_project_append split: if_splits)
      next
        case (Many ls)
        with r v' b Parsed Some show ?thesis
          by (auto simp: filed_by_def labels_of_def dest: push_each_append)
      qed
    qed
  qed
qed

lemma group_packages_append:
  "fst (group_packages w result pkgs) = Inr r \<Longrightarrow> r = foldl append_entry result (filed w pkgs)"
proof (induction pkgs arbitrary: result)
  case Nil
  then show ?case by (simp add: filed_def)
next
  case (Cons pkg pkgs)
  from Cons.prems obtain r' where a: "fst (group_package w result pkg) = Inr r'"
    and b: "fst (group_packages w r' pkgs) = Inr r"
    by (auto split: prod.splits sum.splits)
  from group_package_append[OF a] Cons.IH[OF b] show ?case
    by (simp add: filed_def)
qed

lemma getProjects_Inr:
  assumes "fst (getProjects w) = Inr result"
  shows "\<exists>packages. fst (getTurboPackages w) = Inr packages \<and> result = foldl append_entry [] (filed w packages)"
proof -
  from assms obtain packages where "fst (getTurboPackages w) = Inr packages"
    "fst (group_packages w [] packages) = Inr result"
    unfolding getProjects_def fst_try_catch_throw fst_bind_Inr by blast
  then show ?thesis using group_packages_append by blast
qed

lemma group_of_append_entry:
  "group_of (append_entry r e) l = (if fst e = l then group_of r l @ [snd e] else group_of r l)"
  by (simp add: append_entry_def group_of_def update_conv')

lemma group_of_foldl:
  "group_of (foldl append_entry r es) l = group_of r l @ map snd (filter (\<lambda>e. fst e = l) es)"
  by (induction es arbitrary: r) (simp_all add: group_of_append_entry)

lemma keys_append_entry:
  "map fst (append_entry r e) = (if fst e \<in> set (map fst r) then map fst r else map fst r @ [fst e])"
  by (simp add: append_entry_def update_keys)

lemma keys_foldl:
  "map fst (foldl append_entry r es) = first_encounter (map fst r) (map fst es)"
  by (induction es arbitrary: r) (simp_all add: keys_append_entry)

lemma distinct_append_entry: "distinct (map fst r) \<Longrightarrow> distinct (map fst (append_entry r e))"
  by (simp add: append_entry_def distinct_update)

lemma distinct_foldl: "distinct (map fst r) \<Longrightarrow> distinct (map fst (foldl append_entry r es))"
  by (induction es arbitrary: r) (simp_all add: distinct_append_entry)

lemma set_update_subset: "set (AList.update k v al) \<subseteq> insert (k, v) (set al)"
  by (induction al) auto

lemma nonempty_append_entry:
  assumes "\<forall>(k, g)\<in>set r. g \<noteq> []"
  shows "\<forall>(k, g)\<in>set (append_entry r e). g \<noteq> []"
proof -
  have "set (append_entry r e) \<subseteq> insert (fst e, group_of r (fst e) @ [snd e]) (set r)"
    unfolding append_entry_def by (rule set_update_subset)
  with assms show ?thesis by auto
qed

lemma nonempty_foldl:
  "\<forall>(k, g)\<in>set r. g \<noteq> [] \<Longrightarrow> \<forall>(k, g)\<in>set (foldl append_entry r es). g \<noteq> []"
proof (induction es arbitrary: r)
  case Nil then show ?case by simp
next
  case (Cons e es)
  from Cons.prems have "\<forall>(k, g)\<in>set (append_entry r e). g \<noteq> []" by (rule nonempty_append_entry)
  then show ?case using Cons.IH by simp
qed

lemma group_of_Nil [simp]: "group_of [] l = []"
  by (simp add: group_of_def)

lemma in_group_of: "distinct (map fst r) \<Longrightarrow> (k, g) \<in> set r \<Longrightarrow> group_of r k = g"
  by (simp add: group_of_def)

lemma set_first_encounter: "set (first_encounter seen xs) = set seen \<union> set xs"
  by (induction xs arbitrary: seen) auto

lemma filed_Cons: "filed w (pkg # pkgs) = filed_by w pkg @ filed w pkgs"
  by (simp add: filed_def)

lemma in_filed:
  assumes "(l, i) \<in> set (filed w packages)"
  shows "\<exists>pkg\<in>set packages. \<exists>pj. manifest_of w (item_path pkg) = Parsed pj
           \<and> i = info_of (item_path pkg) pj \<and> l \<in> set (labels_of (json_build pj))"
proof -
  from assms obtain pkg where p: "pkg \<in> set packages" and e: "(l, i) \<in> set (filed_by w pkg)"
    by (auto simp: filed_def)
  show ?thesis
  proof (cases "manifest_of w (item_path pkg)")
    case (Parsed pj)
    with e have "i = info_of (item_path pkg) pj" "l \<in> set (labels_of (json_build pj))"
      by (auto simp: filed_by_def)
    with p Parsed show ?thesis by blast
  next
    case Missing
    with e show ?thesis by (simp add: filed_by_def)
  next
    case Unparsable
    with e show ?thesis by (simp add: filed_by_def)
  qed
qed

lemma labels_of_simps [simp]:
  "labels_of None = []"
  "labels_of (Some (Single s)) = (if s = [] then [] else [s])"
  "labels_of (Some (Many ls)) = ls"
  by (simp_all add: labels_of_def)

lemma nonempty_build_simps [simp]:
  "nonempty_build None = False"
  "nonempty_build (Some (Single s)) = (s \<noteq> [])"
  "nonempty_build (Some (Many ls)) = (ls \<noteq> [])"
  by (simp_all add: nonempty_build_def)

lemma nonempty_build_labels: "nonempty_build b = (labels_of b \<noteq> [])"
proof (cases b)
  case None
  then show ?thesis by simp
next
  case (Some bd)
  then show ?thesis by (cases bd) simp_all
qed

lemma labels_nonempty_build: "l \<in> set (labels_of b) \<Longrightarrow> nonempty_build b"
  by (auto simp: nonempty_build_labels)

lemma grouped_foldl:
  assumes "i \<in> set (grouped (foldl append_entry [] es))"
  shows "\<exists>l. (l, i) \<in> set es"
proof -
  let ?r = "foldl append_entry [] es"
  from assms obtain l g where m: "(l, g) \<in> set ?r" and i: "i \<in> set g"
    by (auto simp: grouped_def)
  have "distinct (map fst ?r)" by (rule distinct_foldl) simp
  from in_group_of[OF this m] have "g = group_of ?r l" by simp
  also have "\<dots> = map snd (filter (\<lambda>e. fst e = l) es)"
    by (simp add: group_of_foldl)
  finally have "i \<in> snd ` set (filter (\<lambda>e. fst e = l) es)" using i by simp
  then show ?thesis by auto
qed

lemma count_replicated:
  "count_list (map snd (filter (\<lambda>e. fst e = l) (map (\<lambda>b. (b, j)) bs))) i =
     (if j = i then count_list bs l else 0)"
  by (induction bs) auto

lemma path_info_of [simp]: "path (info_of p pj) = p"
  by (simp add: info_of_def)

lemma count_filed:
  assumes "manifest_of w p = Parsed pj"
  shows "count_list (map snd (filter (\<lambda>e. fst e = l) (filed w packages))) (info_of p pj) =
           count_list (map item_path packages) p * count_list (labels_of (json_build pj)) l"
proof (induction packages)
  case Nil
  then show ?case by (simp add: filed_def)
next
  case (Cons pkg pkgs)
  have "count_list (map snd (filter (\<lambda>e. fst e = l) (filed_by w pkg))) (info_of p pj) =
          (if item_path pkg = p then count_list (labels_of (json_build pj)) l else 0)"
  proof (cases "item_path pkg = p")
    case True
    with assms show ?thesis by (simp add: filed_by_def count_replicated)
  next
    case False
    have "info_of (item_path pkg) pj' \<noteq> info_of p pj" for pj'
    proof
      assume "info_of (item_path pkg) pj' = info_of p pj"
      then have "path (info_of (item_path pkg) pj') = path (info_of p pj)" by simp
      with False show False by simp
    qed
    with False show ?thesis
      by (simp add: filed_by_def count_replicated split: json_file.splits)
  qed
  with Cons.IH show ?case by (simp add: filed_Cons)
qed

lemma result_is_fold:
  assumes "fst (getTurboPackages w) = Inr packages" and "fst (getProjects w) = Inr result"
  shows "result = foldl append_entry [] (filed w packages)"
  using getProjects_Inr[OF assms(2)] assms(1) by auto

lemma group_of_result:
  assumes "fst (getTurboPackages w) = Inr packages" and "fst (getProjects w) = Inr result"
  shows "group_of result l = map snd (filter (\<lambda>e. fst e = l) (filed w packages))"
  unfolding result_is_fold[OF assms] by (simp add: group_of_foldl)

lemma perm_Object_keys: "set (Object_keys result) = fst ` set result"
  by (auto simp: Object_keys_def Let_def)

text \<open>
  Claim C2. Whenever the grouping pipeline returns a mapping, every project in any of its
  groups was read from the manifest of a discovered package whose \<open>build\<close> field is present
  and not empty; and a discovered package whose manifest is absent, or has no \<open>build\<close> field
  (or an empty one), is in no group.
\<close>

theorem getProjects_only_buildable:
  assumes "fst (getTurboPackages w) = Inr packages" and "fst (getProjects w) = Inr result"
  shows "(\<forall>info\<in>set (grouped result). \<exists>pkg\<in>set packages. \<exists>packageJson.
            manifest_of w (item_path pkg) = Parsed packageJson
            \<and> info = info_of (item_path pkg) packageJson
            \<and> nonempty_build (json_build packageJson))
       \<and> (\<forall>pkg\<in>set packages.
            (manifest_of w (item_path pkg) = Missing
             \<or> (\<exists>packageJson. manifest_of w (item_path pkg) = Parsed packageJson
                   \<and> \<not> nonempty_build (json_build packageJson)))
            \<longrightarrow> (\<forall>info\<in>set (grouped result). path info \<noteq> item_path pkg))"
proof -
  have one: "\<exists>pkg\<in>set packages. \<exists>packageJson.
            manifest_of w (item_path pkg) = Parsed packageJson
            \<and> info = info_of (item_path pkg) packageJson
            \<and> nonempty_build (json_build packageJson)"
    if "info \<in> set (grouped result)" for info
  proof -
    from that obtain l where "(l, info) \<in> set (filed w packages)"
      unfolding result_is_fold[OF assms] by (blast dest: grouped_foldl)
    from in_filed[OF this] show ?thesis by (blast intro: labels_nonempty_build)
  qed
  have two: "path info \<noteq> item_path pkg"
    if "pkg \<in> set packages" and m: "manifest_of w (item_path pkg) = Missing
             \<or> (\<exists>packageJson. manifest_of w (item_path pkg) = Parsed packageJson
                   \<and> \<not> nonempty_build (json_build packageJson))"
      and "info \<in> set (grouped result)" for pkg info
  proof
    assume eq: "path info = item_path pkg"
    from one[OF that(3)] obtain pkg' :: TurboItem and pj where pj: "manifest_of w (item_path pkg') = Parsed pj"
      "info = info_of (item_path pkg') pj" "nonempty_build (json_build pj)" by auto
    from pj(2) eq have "item_path pkg' = item_path pkg" by simp
    with pj(1,3) m show False by auto
  qed
  from one two show ?thesis by blast
qed

theorem getProjects_only_buildable_witness:
  "fst (getTurboPackages demo_world) = Inr demo_packages
   \<and> fst (getProjects demo_world) = Inr demo_result
   \<and> lib_info \<in> set (grouped demo_result)
   \<and> (\<exists>pkg\<in>set demo_packages. \<exists>packageJson.
         manifest_of demo_world (item_path pkg) = Parsed packageJson
         \<and> lib_info = info_of (item_path pkg) packageJson
         \<and> nonempty_build (json_build packageJson))
   \<and> manifest_of demo_world ''./ghost'' = Missing
   \<and> manifest_of demo_world ''./plain'' = Parsed plain_json
   \<and> \<not> nonempty_build (json_build plain_json)
   \<and> ''./ghost'' \<notin> path ` set (grouped demo_result)
   \<and> ''./plain'' \<notin> path ` set (grouped demo_result)"
proof -
  have p: "fst (getTurboPackages demo_world) = Inr demo_packages" by code_simp
  have r: "fst (getProjects demo_world) = Inr demo_result" by code_simp
  have l: "lib_info \<in> set (grouped demo_result)" by code_simp
  have g: "manifest_of demo_world ''./ghost'' = Missing" by code_simp
  have q: "manifest_of demo_world ''./plain'' = Parsed plain_json" by code_simp
  have n: "\<not> nonempty_build (json_build plain_json)" by code_simp
  have mg: "\<lparr>item_name = ''ghost'', item_path = ''./ghost''\<rparr> \<in> set demo_packages"
    by (simp add: demo_packages_def)
  have mp: "\<lparr>item_name = ''@x/b'', item_path = ''./plain''\<rparr> \<in> set demo_packages"
    by (simp add: demo_packages_def)
  note t = getProjects_only_buildable[OF p r]
  from t l have a: "\<exists>pkg\<in>set demo_packages. \<exists>packageJson.
         manifest_of demo_world (item_path pkg) = Parsed packageJson
         \<and> lib_info = info_of (item_path pkg) packageJson
         \<and> nonempty_build (json_build packageJson)" by blast
  from t mg g have b: "''./ghost'' \<notin> path ` set (grouped demo_result)" by fastforce
  from t mp q n have c: "''./plain'' \<notin> path ` set (grouped demo_result)" by fastforce
  from p r l a g q n b c show ?thesis by blast
qed

text \<open>
  Claim C9. In every mapping the grouping pipeline returns, every label maps to a sequence
  with at least one project, both among the own properties of the object and in the
  entries that are listed for the output.
\<close>

theorem groups_never_empty:
  assumes "fst (getProjects w) = Inr result"
  shows "(\<forall>(label, projects)\<in>set result. projects \<noteq> [])
       \<and> (\<forall>(label, projects)\<in>set (Object_entries result). projects \<noteq> [])"
proof -
  from getProjects_Inr[OF assms] obtain packages
    where r: "result = foldl append_entry [] (filed w packages)" by blast
  have own: "\<forall>(label, projects)\<in>set result. projects \<noteq> []"
    unfolding r by (rule nonempty_foldl) simp
  have d: "distinct (map fst result)" unfolding r by (rule distinct_foldl) simp
  have "projects \<noteq> []" if "(label, projects) \<in> set (Object_entries result)" for label projects
  proof -
    from that have k: "label \<in> set (Object_keys result)" and g: "projects = group_of result label"
      by (auto simp: Object_entries_def)
    from k obtain g' where m: "(label, g') \<in> set result"
      unfolding perm_Object_keys by auto
    from in_group_of[OF d m] g have "projects = g'" by simp
    with own m show ?thesis by auto
  qed
  with own show ?thesis by blast
qed

theorem groups_never_empty_witness:
  "fst (getProjects demo_world) = Inr demo_result
   \<and> list_all (\<lambda>(label, projects). projects \<noteq> []) demo_result
   \<and> list_all (\<lambda>(label, projects). projects \<noteq> []) (Object_entries demo_result)"
proof -
  have r: "fst (getProjects demo_world) = Inr demo_result" by code_simp
  from groups_never_empty[OF r] r show ?thesis by (simp add: list_all_iff)
qed

text \<open>
  Claim C6. A discovered package whose manifest has \<open>build: [a, b]\<close> is filed in group \<open>a\<close>
  and in group \<open>b\<close> of the returned mapping, as one and the same record (path, name,
  version, identifier and build agree in both places); when the two labels differ and the
  tool lists the package once, it occurs exactly once in each of the two groups.
\<close>

theorem fan_out_two_labels:
  assumes "fst (getTurboPackages w) = Inr packages" and "fst (getProjects w) = Inr result"
    and "pkg \<in> set packages"
    and "manifest_of w (item_path pkg) = Parsed packageJson"
    and "json_build packageJson = Some (Many [a, b])"
  shows "info_of (item_path pkg) packageJson \<in> set (group_of result a)
       \<and> info_of (item_path pkg) packageJson \<in> set (group_of result b)
       \<and> (a \<noteq> b \<and> count_list (map item_path packages) (item_path pkg) = 1 \<longrightarrow>
            count_list (group_of result a) (info_of (item_path pkg) packageJson) = 1
            \<and> count_list (group_of result b) (info_of (item_path pkg) packageJson) = 1)"
proof -
  let ?i = "info_of (item_path pkg) packageJson"
  let ?n = "count_list (map item_path packages) (item_path pkg)"
  have c: "count_list (group_of result l) ?i = ?n * count_list [a, b] l" for l
    using count_filed[OF assms(4), of l packages] assms(5)
    by (simp add: group_of_result[OF assms(1,2)])
  from assms(3) have "item_path pkg \<in> set (map item_path packages)" by simp
  then have n: "?n \<noteq> 0" by (simp only: count_list_0_iff) simp
  from n c[of a] have "count_list (group_of result a) ?i \<noteq> 0" by simp
  then have ia: "?i \<in> set (group_of result a)" by (simp only: count_list_0_iff) simp
  from n c[of b] have "count_list (group_of result b) ?i \<noteq> 0" by simp
  then have ib: "?i \<in> set (group_of result b)" by (simp only: count_list_0_iff) simp
  from c[of a] c[of b] ia ib show ?thesis by auto
qed

theorem fan_out_two_labels_witness:
  "fst (getTurboPackages demo_world) = Inr demo_packages
   \<and> fst (getProjects demo_world) = Inr demo_result
   \<and> manifest_of demo_world ''./lib'' = Parsed lib_json
   \<and> json_build lib_json = Some (Many [''a'', ''b''])
   \<and> info_of ''./lib'' lib_json = lib_info
   \<and> lib_info \<in> set (group_of demo_result ''a'')
   \<and> lib_info \<in> set (group_of demo_result ''b'')
   \<and> count_list (group_of demo_result ''a'') lib_info = 1
   \<and> count_list (group_of demo_result ''b'') lib_info = 1"
proof -
  have p: "fst (getTurboPackages demo_world) = Inr demo_packages" by code_simp
  have r: "fst (getProjects demo_world) = Inr demo_result" by code_simp
  have k: "\<lparr>item_name = ''@My/Lib!!'', item_path = ''./lib''\<rparr> \<in> set demo_packages"
    by (simp add: demo_packages_def)
  have m: "manifest_of demo_world (item_path \<lparr>item_name = ''@My/Lib!!'', item_path = ''./lib''\<rparr>)
             = Parsed lib_json" by code_simp
  have b: "json_build lib_json = Some (Many [''a'', ''b''])" by code_simp
  have i: "info_of ''./lib'' lib_json = lib_info" by code_simp
  have d: "''a'' \<noteq> ''b''" by simp
  have o: "count_list (map item_path demo_packages)
             (item_path \<lparr>item_name = ''@My/Lib!!'', item_path = ''./lib''\<rparr>) = 1" by code_simp
  from fan_out_two_labels[OF p r k m b] d o i p r m b show ?thesis by simp
qed

text \<open>
  Claim C10. Labels are not deduplicated: a package whose \<open>build\<close> array names a label
  several times is appended to that label's group once for each occurrence. The number of
  times its record stands in a group is the number of occurrences of the label in the
  array, times the number of times the tool lists the package; for \<open>build: [a, a]\<close> and a
  package listed once that is twice in group \<open>a\<close>.
\<close>

theorem repeated_label_repeats_project:
  assumes "fst (getTurboPackages w) = Inr packages" and "fst (getProjects w) = Inr result"
    and "pkg \<in> set packages"
    and "manifest_of w (item_path pkg) = Parsed packageJson"
    and "json_build packageJson = Some (Many builds)"
  shows "count_list (group_of result label) (info_of (item_path pkg) packageJson) =
           count_list (map item_path packages) (item_path pkg) * count_list builds label"
  using count_filed[OF assms(4), of label packages] assms(5)
  by (simp add: group_of_result[OF assms(1,2)])

theorem repeated_label_repeats_project_witness:
  "fst (getTurboPackages demo_world) = Inr demo_packages
   \<and> fst (getProjects demo_world) = Inr demo_result
   \<and> manifest_of demo_world ''./twice'' = Parsed twice_json
   \<and> json_build twice_json = Some (Many [''a'', ''a''])
   \<and> info_of ''./twice'' twice_json = twice_info
   \<and> count_list (map item_path demo_packages) ''./twice'' = 1
   \<and> count_list (group_of demo_result ''a'') twice_info = 2"
proof -
  have p: "fst (getTurboPackages demo_world) = Inr demo_packages" by code_simp
  have r: "fst (getProjects demo_world) = Inr demo_result" by code_simp
  have k: "\<lparr>item_name = ''twice'', item_path = ''./twice''\<rparr> \<in> set demo_packages"
    by (simp add: demo_packages_def)
  have m: "manifest_of demo_world (item_path \<lparr>item_name = ''twice'', item_path = ''./twice''\<rparr>)
             = Parsed twice_json" by code_simp
  have b: "json_build twice_json = Some (Many [''a'', ''a''])" by code_simp
  have i: "info_of ''./twice'' twice_json = twice_info" by code_simp
  have o: "count_list (map item_path demo_packages) ''./twice'' = 1" by code_simp
  from repeated_label_repeats_project[OF p r k m b, of "''a''"] o i p r m b
  show ?thesis by simp
qed

lemma keys_of_result:
  assumes "fst (getTurboPackages w) = Inr packages" and "fst (getProjects w) = Inr result"
  shows "map fst result = first_encounter [] (map fst (filed w packages))"
  unfolding result_is_fold[OF assms] by (simp add: keys_foldl)

lemma filter_none: "\<forall>x\<in>set xs. \<not> P x \<Longrightarrow> filter P xs = []"
  by (induction xs) auto

text \<open>
  Claim C8, as amended. On every run that returns a mapping, the group of each label is
  the discovery-ordered list of the projects that carry the label (a project once per
  occurrence of the label in its \<open>build\<close> field). The own properties of the mapping are
  created in the order in which the labels are first encountered; the mapping lists them
  (\<open>Object.keys\<close>, \<open>Object.entries\<close>, \<open>JSON.stringify\<close>) with the labels that are array indices
  first, in ascending numeric order, followed by the other labels in first-encounter
  order. When no label is an array index the listed order is the first-encounter order.
\<close>

theorem group_order_and_key_order:
  assumes "fst (getTurboPackages w) = Inr packages" and "fst (getProjects w) = Inr result"
  shows "(\<forall>label. group_of result label =
            map snd (filter (\<lambda>e. fst e = label) (filed w packages)))
       \<and> map fst result = first_encounter [] (map fst (filed w packages))
       \<and> Object_keys result =
           sort_key decimal
             (filter is_array_index (first_encounter [] (map fst (filed w packages))))
           @ filter (\<lambda>k. \<not> is_array_index k)
               (first_encounter [] (map fst (filed w packages)))
       \<and> ((\<forall>label\<in>set (map fst (filed w packages)). \<not> is_array_index label) \<longrightarrow>
            Object_keys result = first_encounter [] (map fst (filed w packages)))"
proof -
  let ?fe = "first_encounter [] (map fst (filed w packages))"
  have g: "\<forall>label. group_of result label =
            map snd (filter (\<lambda>e. fst e = label) (filed w packages))"
    using group_of_result[OF assms] by blast
  have k: "map fst result = ?fe" by (rule keys_of_result[OF assms])
  have o: "Object_keys result =
      sort_key decimal (filter is_array_index ?fe) @ filter (\<lambda>k. \<not> is_array_index k) ?fe"
    by (simp add: Object_keys_def Let_def k)
  have n: "Object_keys result = ?fe"
    if h: "\<forall>label\<in>set (map fst (filed w packages)). \<not> is_array_index label"
  proof -
    from h have a: "\<forall>x\<in>set ?fe. \<not> is_array_index x" by (simp add: set_first_encounter)
    then have "filter is_array_index ?fe = []" by (rule filter_none)
    moreover from a have "filter (\<lambda>k. \<not> is_array_index k) ?fe = ?fe" by simp
    ultimately show ?thesis by (simp add: o)
  qed
  from g k o n show ?thesis by blast
qed

theorem group_order_and_key_order_witness:
  "fst (getTurboPackages demo_world) = Inr demo_packages
   \<and> fst (getProjects demo_world) = Inr demo_result
   \<and> map fst (filed demo_world demo_packages) = [''a'', ''b'', ''a'', ''a'', ''docker'']
   \<and> list_all (\<lambda>label. \<not> is_array_index label) (map fst (filed demo_world demo_packages))
   \<and> group_of demo_result ''a'' = [lib_info, twice_info, twice_info]
   \<and> map snd (filter (\<lambda>e. fst e = ''a'') (filed demo_world demo_packages)) =
       [lib_info, twice_info, twice_info]
   \<and> first_encounter [] (map fst (filed demo_world demo_packages)) = [''a'', ''b'', ''docker'']
   \<and> Object_keys demo_result = [''a'', ''b'', ''docker'']"
proof -
  have p: "fst (getTurboPackages demo_world) = Inr demo_packages" by code_simp
  have r: "fst (getProjects demo_world) = Inr demo_result" by code_simp
  have l: "map fst (filed demo_world demo_packages) = [''a'', ''b'', ''a'', ''a'', ''docker'']"
    by code_simp
  have h: "\<forall>label\<in>set (map fst (filed demo_world demo_packages)). \<not> is_array_index label"
    unfolding l by code_simp
  then have h': "list_all (\<lambda>label. \<not> is_array_index label) (map fst (filed demo_world demo_packages))"
    by (simp only: list_all_iff)
  have a: "group_of demo_result ''a'' = [lib_info, twice_info, twice_info]" by code_simp
  have f: "first_encounter [] (map fst (filed demo_world demo_packages)) = [''a'', ''b'', ''docker'']"
    unfolding l by code_simp
  note t = group_order_and_key_order[OF p r]
  from t a have b: "map snd (filter (\<lambda>e. fst e = ''a'') (filed demo_world demo_packages)) =
       [lib_info, twice_info, twice_info]" by metis
  from t h f have k: "Object_keys demo_result = [''a'', ''b'', ''docker'']" by metis
  from p r l h' a b f k show ?thesis by blast
qed

text \<open>
  The claim as the specification words it fails: two packages labelled \<^verbatim>\<open>2\<close> and \<^verbatim>\<open>1\<close>, in
  this order of discovery, give a mapping that lists \<^verbatim>\<open>1\<close> before \<^verbatim>\<open>2\<close>.
\<close>

theorem labels_not_in_first_encounter_order:
  "fst (getTurboPackages index_world) = Inr index_packages
   \<and> first_encounter [] (map fst (filed index_world index_packages)) = [''2'', ''1'']
   \<and> fst (getProjects index_world) = Inr index_result
   \<and> Object_keys index_result = [''1'', ''2'']
   \<and> Object_keys index_result \<noteq> first_encounter [] (map fst (filed index_world index_packages))
   \<and> fst (run index_world) =
       setOutput ''projects'' [(''1'', [first_info]), (''2'', [second_info])]"
  by code_simp

section \<open>Properties of the version lookup, the cache and the listing\<close>

lemma ensureTurboCache_Inr: "fst (ensureTurboCache w v) = Inr ()"
  by (simp add: ensureTurboCache_def bind_def try_catch_def lift_def ret_def warning_def
      split: sum.splits prod.splits if_splits)

lemma restore_warning:
  assumes "restoreCache w [npxCachePath w] (cacheKey w v) = Inl e"
  shows "Warning (''Cache restore failed: '' @ String_error e) \<in> set (snd (ensureTurboCache w v))"
  using assms
  by (simp add: ensureTurboCache_def bind_def try_catch_def lift_def ret_def warning_def
      split: sum.splits prod.splits if_splits)

lemma download_warning:
  assumes "\<not> (\<exists>k. restoreCache w [npxCachePath w] (cacheKey w v) = Inr (Some k) \<and> k \<noteq> [])"
    and "getExecOutput w ''npx'' [''turbo@'' @ v, ''--version''] = Inl e"
  shows "Warning (''Failed to pre-download turbo: '' @ String_error e) \<in> set (snd (ensureTurboCache w v))"
  using assms
  by (auto simp add: ensureTurboCache_def bind_def try_catch_def lift_def ret_def warning_def truthy_def
      split: sum.splits prod.splits if_splits option.splits)

lemma save_warning:
  assumes "\<not> (\<exists>k. restoreCache w [npxCachePath w] (cacheKey w v) = Inr (Some k) \<and> k \<noteq> [])"
    and "getExecOutput w ''npx'' [''turbo@'' @ v, ''--version''] = Inr out" and "exitCode out = 0"
    and "saveCache w [npxCachePath w] (cacheKey w v) = Inl e"
  shows "Warning (''Failed to save cache: '' @ String_error e) \<in> set (snd (ensureTurboCache w v))"
  using assms
  by (auto simp add: ensureTurboCache_def bind_def try_catch_def lift_def ret_def warning_def truthy_def
      split: sum.splits prod.splits if_splits option.splits)

lemma quiet_log_no_failure:
  assumes "\<forall>out. getExecOutput w ''npx'' [''turbo@'' @ v, ''--version''] = Inr out
             \<longrightarrow> exitCode out = 0"
    and "snd (ensureTurboCache w v) = []"
  shows "\<exists>cacheHit. restoreCache w [npxCachePath w] (cacheKey w v) = Inr cacheHit
           \<and> (truthy cacheHit
               \<or> (\<exists>out n. getExecOutput w ''npx'' [''turbo@'' @ v, ''--version''] = Inr out
                     \<and> exitCode out = 0
                     \<and> saveCache w [npxCachePath w] (cacheKey w v) = Inr n))"
proof (cases "restoreCache w [npxCachePath w] (cacheKey w v)")
  case (Inl e)
  from restore_warning[OF this] assms(2) show ?thesis by simp
next
  case (Inr cacheHit)
  show ?thesis
  proof (cases "truthy cacheHit")
    case True
    with Inr show ?thesis by simp
  next
    case False
    with Inr have cold:
      "\<not> (\<exists>k. restoreCache w [npxCachePath w] (cacheKey w v) = Inr (Some k) \<and> k \<noteq> [])"
      by (auto simp: truthy_def)
    show ?thesis
    proof (cases "getExecOutput w ''npx'' [''turbo@'' @ v, ''--version'']")
      case (Inl e)
      from download_warning[OF cold this] assms(2) show ?thesis by simp
    next
      case out: (Inr out)
      with assms(1) have zero: "exitCode out = 0" by simp
      show ?thesis
      proof (cases "saveCache w [npxCachePath w] (cacheKey w v)")
        case (Inl e)
        from save_warning[OF cold out zero this] assms(2) show ?thesis by simp
      next
        case (Inr n)
        with \<open>restoreCache w [npxCachePath w] (cacheKey w v) = Inr cacheHit\<close> out zero
        show ?thesis by simp
      qed
    qed
  qed
qed

text \<open>
  Claim C5. The cache warm-up never throws to its caller, whatever its collaborators do:
  it always returns normally. A restore that throws, a pre-download that throws and a save
  that throws each leave their warning in the log. \<open>ensureTurboCache\<close> calls
  \<^verbatim>\<open>getExecOutput\<close> with the option \<^verbatim>\<open>silent\<close> only, and so a subprocess that exits non-zero
  reaches it as a thrown error, never as a returned exit code; with the collaborator
  behaving so, every failure is logged: a log without a warning means that the restore
  returned and either hit the cache or was followed by a download and a save that both
  succeeded.
\<close>

theorem ensureTurboCache_never_throws:
  "fst (ensureTurboCache w turboVersion) = Inr ()
   \<and> (\<forall>e. restoreCache w [npxCachePath w] (cacheKey w turboVersion) = Inl e \<longrightarrow>
          Warning (''Cache restore failed: '' @ String_error e)
            \<in> set (snd (ensureTurboCache w turboVersion)))
   \<and> (\<forall>e. \<not> (\<exists>k. restoreCache w [npxCachePath w] (cacheKey w turboVersion) = Inr (Some k)
                    \<and> k \<noteq> [])
          \<and> getExecOutput w ''npx'' [''turbo@'' @ turboVersion, ''--version''] = Inl e \<longrightarrow>
          Warning (''Failed to pre-download turbo: '' @ String_error e)
            \<in> set (snd (ensureTurboCache w turboVersion)))
   \<and> (\<forall>e out. \<not> (\<exists>k. restoreCache w [npxCachePath w] (cacheKey w turboVersion) = Inr (Some k)
                    \<and> k \<noteq> [])
          \<and> getExecOutput w ''npx'' [''turbo@'' @ turboVersion, ''--version''] = Inr out
          \<and> exitCode out = 0
          \<and> saveCache w [npxCachePath w] (cacheKey w turboVersion) = Inl e \<longrightarrow>
          Warning (''Failed to save cache: '' @ String_error e)
            \<in> set (snd (ensureTurboCache w turboVersion)))
   \<and> ((\<forall>out. getExecOutput w ''npx'' [''turbo@'' @ turboVersion, ''--version''] = Inr out
            \<longrightarrow> exitCode out = 0)
        \<and> snd (ensureTurboCache w turboVersion) = [] \<longrightarrow>
        (\<exists>cacheHit. restoreCache w [npxCachePath w] (cacheKey w turboVersion) = Inr cacheHit
           \<and> (truthy cacheHit
               \<or> (\<exists>out n.
                     getExecOutput w ''npx'' [''turbo@'' @ turboVersion, ''--version''] = Inr out
                     \<and> exitCode out = 0
                     \<and> saveCache w [npxCachePath w] (cacheKey w turboVersion) = Inr n))))"
proof -
  have "(\<forall>out. getExecOutput w ''npx'' [''turbo@'' @ turboVersion, ''--version''] = Inr out
            \<longrightarrow> exitCode out = 0)
        \<and> snd (ensureTurboCache w turboVersion) = [] \<longrightarrow>
        (\<exists>cacheHit. restoreCache w [npxCachePath w] (cacheKey w turboVersion) = Inr cacheHit
           \<and> (truthy cacheHit
               \<or> (\<exists>out n.
                     getExecOutput w ''npx'' [''turbo@'' @ turboVersion, ''--version''] = Inr out
                     \<and> exitCode out = 0
                     \<and> saveCache w [npxCachePath w] (cacheKey w turboVersion) = Inr n)))"
    using quiet_log_no_failure[of w turboVersion] by blast
  moreover have "fst (ensureTurboCache w turboVersion) = Inr ()"
    by (rule ensureTurboCache_Inr)
  ultimately show ?thesis
    using restore_warning[of w turboVersion] download_warning[of w turboVersion]
      save_warning[of w turboVersion]
    by blast
qed

theorem ensureTurboCache_never_throws_witness:
  "restoreCache offline_world [npxCachePath offline_world] (cacheKey offline_world ''2.5.8'')
     = Inl (Error ''network'')
   \<and> getExecOutput offline_world ''npx'' [''turbo@'' @ ''2.5.8'', ''--version'']
     = Inl (Error ''spawn npx ENOENT'')
   \<and> fst (ensureTurboCache offline_world ''2.5.8'') = Inr ()
   \<and> Warning (''Cache restore failed: '' @ String_error (Error ''network''))
       \<in> set (snd (ensureTurboCache offline_world ''2.5.8''))
   \<and> Warning (''Failed to pre-download turbo: '' @ String_error (Error ''spawn npx ENOENT''))
       \<in> set (snd (ensureTurboCache offline_world ''2.5.8''))
   \<and> restoreCache readonly_world [npxCachePath readonly_world] (cacheKey readonly_world ''2.5.8'')
     = Inl (Error ''network'')
   \<and> getExecOutput readonly_world ''npx'' [''turbo@'' @ ''2.5.8'', ''--version'']
     = Inr \<lparr>exitCode = 0, stdout = ''turbo 2.5.8 {items}'', stderr = []\<rparr>
   \<and> saveCache readonly_world [npxCachePath readonly_world] (cacheKey readonly_world ''2.5.8'')
     = Inl (Error ''read-only'')
   \<and> fst (ensureTurboCache readonly_world ''2.5.8'') = Inr ()
   \<and> Warning (''Failed to save cache: '' @ String_error (Error ''read-only''))
       \<in> set (snd (ensureTurboCache readonly_world ''2.5.8''))
   \<and> restoreCache exit_one_world [npxCachePath exit_one_world] (cacheKey exit_one_world ''2.5.8'')
     = Inr None
   \<and> getExecOutput exit_one_world ''npx'' [''turbo@'' @ ''2.5.8'', ''--version'']
     = Inl (Error ''The process npx failed with exit code 1'')
   \<and> fst (ensureTurboCache exit_one_world ''2.5.8'') = Inr ()
   \<and> Warning (''Failed to pre-download turbo: ''
                @ String_error (Error ''The process npx failed with exit code 1''))
       \<in> set (snd (ensureTurboCache exit_one_world ''2.5.8''))
   \<and> snd (ensureTurboCache demo_world ''2.5.8'') = []
   \<and> (\<exists>cacheHit. restoreCache demo_world [npxCachePath demo_world] (cacheKey demo_world ''2.5.8'')
                     = Inr cacheHit
         \<and> (truthy cacheHit
             \<or> (\<exists>out n.
                   getExecOutput demo_world ''npx'' [''turbo@'' @ ''2.5.8'', ''--version''] = Inr out
                   \<and> exitCode out = 0
                   \<and> saveCache demo_world [npxCachePath demo_world] (cacheKey demo_world ''2.5.8'')
                       = Inr n)))"
proof -
  have r1: "restoreCache offline_world [npxCachePath offline_world] (cacheKey offline_world ''2.5.8'')
     = Inl (Error ''network'')" by code_simp
  have d1: "getExecOutput offline_world ''npx'' [''turbo@'' @ ''2.5.8'', ''--version'']
     = Inl (Error ''spawn npx ENOENT'')" by code_simp
  have r2: "restoreCache readonly_world [npxCachePath readonly_world] (cacheKey readonly_world ''2.5.8'')
     = Inl (Error ''network'')" by code_simp
  have d2: "getExecOutput readonly_world ''npx'' [''turbo@'' @ ''2.5.8'', ''--version'']
     = Inr \<lparr>exitCode = 0, stdout = ''turbo 2.5.8 {items}'', stderr = []\<rparr>" by code_simp
  have s2: "saveCache readonly_world [npxCachePath readonly_world] (cacheKey readonly_world ''2.5.8'')
     = Inl (Error ''read-only'')" by code_simp
  have r3: "restoreCache exit_one_world [npxCachePath exit_one_world] (cacheKey exit_one_world ''2.5.8'')
     = Inr None" by code_simp
  have d3: "getExecOutput exit_one_world ''npx'' [''turbo@'' @ ''2.5.8'', ''--version'']
     = Inl (Error ''The process npx failed with exit code 1'')" by code_simp
  have c4: "\<forall>out. getExecOutput demo_world ''npx'' [''turbo@'' @ ''2.5.8'', ''--version''] = Inr out
              \<longrightarrow> exitCode out = 0"
    by (simp add: demo_world_def)
  have q4: "snd (ensureTurboCache demo_world ''2.5.8'') = []" by code_simp
  note t1 = ensureTurboCache_never_throws[of offline_world "''2.5.8''"]
  note t2 = ensureTurboCache_never_throws[of readonly_world "''2.5.8''"]
  note t3 = ensureTurboCache_never_throws[of exit_one_world "''2.5.8''"]
  note t4 = ensureTurboCache_never_throws[of demo_world "''2.5.8''"]
  from t1 have a: "fst (ensureTurboCache offline_world ''2.5.8'') = Inr ()" by blast
  from t1 r1 have b: "Warning (''Cache restore failed: '' @ String_error (Error ''network''))
       \<in> set (snd (ensureTurboCache offline_world ''2.5.8''))" by blast
  from t1 r1 d1 have c: "Warning (''Failed to pre-download turbo: '' @ String_error (Error ''spawn npx ENOENT''))
       \<in> set (snd (ensureTurboCache offline_world ''2.5.8''))" by simp
  from t2 have d: "fst (ensureTurboCache readonly_world ''2.5.8'') = Inr ()" by blast
  from t2 r2 d2 s2 have e: "Warning (''Failed to save cache: '' @ String_error (Error ''read-only''))
       \<in> set (snd (ensureTurboCache readonly_world ''2.5.8''))" by simp
  from t3 have f: "fst (ensureTurboCache exit_one_world ''2.5.8'') = Inr ()" by blast
  from t3 r3 d3 have g: "Warning (''Failed to pre-download turbo: ''
                @ String_error (Error ''The process npx failed with exit code 1''))
       \<in> set (snd (ensureTurboCache exit_one_world ''2.5.8''))" by simp
  from t4 c4 q4 have h: "\<exists>cacheHit.
         restoreCache demo_world [npxCachePath demo_world] (cacheKey demo_world ''2.5.8'')
           = Inr cacheHit
         \<and> (truthy cacheHit
             \<or> (\<exists>out n.
                   getExecOutput demo_world ''npx'' [''turbo@'' @ ''2.5.8'', ''--version''] = Inr out
                   \<and> exitCode out = 0
                   \<and> saveCache demo_world [npxCachePath demo_world] (cacheKey demo_world ''2.5.8'')
                       = Inr n))" by blast
  from r1 d1 a b c r2 d2 s2 d e r3 d3 f g q4 h show ?thesis by blast
qed

text \<open>
  Claim C7, as amended. \<open>getTurboVersion\<close> returns no version when the root manifest does
  not exist, and when it parses but neither dependency section has an entry for the tool;
  it fails exactly when the root manifest exists but cannot be read as a document (reading
  or parsing it throws, or it is the JSON value \<^verbatim>\<open>null\<close>); when the
  development section has a non-empty entry for the tool, that entry is returned, whatever
  the runtime section holds; and an empty development entry falls through to the runtime
  entry.
\<close>

theorem getTurboVersion_cases:
  "(root_package_json w = Missing \<longrightarrow> getTurboVersion w = Inr None)
   \<and> (\<forall>packageJson. root_package_json w = Parsed packageJson
          \<and> optional_turbo (devDependencies packageJson) = None
          \<and> optional_turbo (dependencies packageJson) = None \<longrightarrow>
          getTurboVersion w = Inr None)
   \<and> ((\<exists>e. getTurboVersion w = Inl e) \<longleftrightarrow> root_package_json w = Unparsable)
   \<and> (\<forall>packageJson dev. root_package_json w = Parsed packageJson
          \<and> optional_turbo (devDependencies packageJson) = Some dev \<and> dev \<noteq> [] \<longrightarrow>
          getTurboVersion w = Inr (Some dev))
   \<and> (\<forall>packageJson. root_package_json w = Parsed packageJson
          \<and> optional_turbo (devDependencies packageJson) = Some [] \<longrightarrow>
          getTurboVersion w = Inr (optional_turbo (dependencies packageJson)))"
  by (cases "root_package_json w") (auto simp: getTurboVersion_def or_else_def truthy_def)

theorem getTurboVersion_cases_witness:
  "root_package_json demo_world =
     Parsed \<lparr>devDependencies = Some [''turbo'' \<mapsto> ''2.5.8''], dependencies = None\<rparr>
   \<and> optional_turbo (Some [''turbo'' \<mapsto> ''2.5.8'']) = Some ''2.5.8''
   \<and> getTurboVersion demo_world = Inr (Some ''2.5.8'')
   \<and> getTurboVersion (demo_world\<lparr>root_package_json := Missing\<rparr>) = Inr None
   \<and> getTurboVersion (demo_world\<lparr>root_package_json := Unparsable\<rparr>)
       = Inl (Error ''Failed to fetch package.json in repo root folder'')"
proof -
  have r: "root_package_json demo_world =
     Parsed \<lparr>devDependencies = Some [''turbo'' \<mapsto> ''2.5.8''], dependencies = None\<rparr>"
    by (simp add: demo_world_def)
  have o: "optional_turbo (Some [''turbo'' \<mapsto> ''2.5.8'']) = Some ''2.5.8''"
    by (simp add: optional_turbo_def)
  have n: "''2.5.8'' \<noteq> []" by simp
  from getTurboVersion_cases[of demo_world] r o n
  have a: "getTurboVersion demo_world = Inr (Some ''2.5.8'')" by simp
  from getTurboVersion_cases[of "demo_world\<lparr>root_package_json := Missing\<rparr>"]
  have b: "getTurboVersion (demo_world\<lparr>root_package_json := Missing\<rparr>) = Inr None" by simp
  from getTurboVersion_cases[of "demo_world\<lparr>root_package_json := Unparsable\<rparr>"]
  obtain e where "getTurboVersion (demo_world\<lparr>root_package_json := Unparsable\<rparr>) = Inl e"
    by auto
  then have c: "getTurboVersion (demo_world\<lparr>root_package_json := Unparsable\<rparr>)
       = Inl (Error ''Failed to fetch package.json in repo root folder'')"
    by (simp add: getTurboVersion_def)
  from r o a b c show ?thesis by blast
qed

text \<open>
  The claim as the specification words it fails: with the development entry \<^verbatim>\<open>""\<close> and the
  runtime entry \<^verbatim>\<open>2.5.8\<close> both present, the runtime entry is returned.
\<close>

theorem empty_dev_entry_not_returned:
  "root_package_json empty_dev_world = Parsed empty_dev_root
   \<and> optional_turbo (devDependencies empty_dev_root) = Some []
   \<and> optional_turbo (dependencies empty_dev_root) = Some ''2.5.8''
   \<and> getTurboVersion empty_dev_world = Inr (Some ''2.5.8'')
   \<and> getTurboVersion empty_dev_world \<noteq> Inr (optional_turbo (devDependencies empty_dev_root))"
  by (simp add: empty_dev_world_def empty_dev_root_def optional_turbo_def getTurboVersion_def
      or_else_def truthy_def)

text \<open>
  Claim C1. When the listing subprocess exits with a non-zero code, \<open>getTurboPackages\<close>
  fails; the claim adds that the message it fails with holds the error stream of the
  subprocess. On the code the error that carries the stream is thrown inside the
  \<^verbatim>\<open>try\<close> block of \<open>getTurboPackages\<close> and caught by its own \<^verbatim>\<open>catch\<close>, which throws a fixed
  message in its place: for the exit code 1 and the error stream \<^verbatim>\<open>boom\<close>, neither the
  message of \<open>getTurboPackages\<close>, nor that of \<open>getProjects\<close>, nor the failure reported by \<open>run\<close>
  contains \<^verbatim>\<open>boom\<close>.
\<close>

theorem nonzero_exit_loses_error_stream:
  "getExecOutput boom_world ''npx'' [''turbo@2.5.8'', ''ls'', ''--output=json'']
     = Inr \<lparr>exitCode = 1, stdout = [], stderr = ''boom''\<rparr>
   \<and> fst (getTurboPackages boom_world) = Inl (Error ''Failed to retrieve turbo packages'')
   \<and> \<not> sublist ''boom'' ''Failed to retrieve turbo packages''
   \<and> fst (getProjects boom_world)
       = Inl (Error ''Analysis failed: Failed to retrieve turbo packages'')
   \<and> \<not> sublist ''boom'' ''Analysis failed: Failed to retrieve turbo packages''
   \<and> fst (run boom_world)
       = setFailed (cross_mark @ '' Action failed: Analysis failed: Failed to retrieve turbo packages'')
   \<and> \<not> sublist ''boom''
         (cross_mark @ '' Action failed: Analysis failed: Failed to retrieve turbo packages'')"
  by code_simp

lemma nonzero_exit_message:
  assumes "getTurboVersion w = Inr (Some v)" and "v \<noteq> []"
    and "getExecOutput w ''npx'' [''turbo@'' @ v, ''ls'', ''--output=json''] = Inr out"
    and "exitCode out \<noteq> 0"
  shows "fst (getTurboPackages w) = Inl (Error ''Failed to retrieve turbo packages'')"
proof -
  obtain lg where "ensureTurboCache w v = (Inr (), lg)"
    using ensureTurboCache_Inr[of w v] by (cases "ensureTurboCache w v") auto
  with assms show ?thesis
    by (simp add: getTurboPackages_def bind_def try_catch_def lift_def throw_def)
qed

lemma listing_throw_message:
  assumes "getTurboVersion w = Inr (Some v)" and "v \<noteq> []"
    and "getExecOutput w ''npx'' [''turbo@'' @ v, ''ls'', ''--output=json''] = Inl e"
  shows "fst (getTurboPackages w) = Inl (Error ''Failed to retrieve turbo packages'')"
proof -
  obtain lg where "ensureTurboCache w v = (Inr (), lg)"
    using ensureTurboCache_Inr[of w v] by (cases "ensureTurboCache w v") auto
  with assms show ?thesis
    by (simp add: getTurboPackages_def bind_def try_catch_def lift_def throw_def)
qed

text \<open>A label that names a property of \<^verbatim>\<open>Object.prototype\<close> makes the run fail instead of
  returning a mapping; the statements above are about the runs that return one.\<close>

lemma inherited_label_throws:
  "fst (getProjects constructor_world)
     = Inl (Error ''Analysis failed: result[packageInfo.build].push is not a function'')"
  by code_simp

end
